theory Spec2Isabelle
  imports Complex_Main "HOL-Library.AList"
begin

section \<open>Conventions of the embedding\<close>

text \<open>
  The development embeds the session core of \<^verbatim>\<open>src/modify_v1.py\<close> (the Facebook
  scraper) and the corresponding classes of \<^verbatim>\<open>src/tiktok_scrap_api.py\<close>.

  \<^item> \<^verbatim>\<open>time.monotonic()\<close> is a Python float; it is read here as an exact
    \<^typ>\<open>real\<close> number of seconds, passed to each operation as the argument \<open>now\<close>.
  \<^item> An \<^verbatim>\<open>asyncio.Lock\<close> is the boolean its method \<^verbatim>\<open>locked()\<close> returns.
  \<^item> The browser driver, the scraper and the HTTP client are external collaborators:
    what a call to them does (return, or raise an \<^verbatim>\<open>Exception\<close>) is an argument
    of the function that makes the call.
  \<^item> Attributes read with \<^verbatim>\<open>getattr(obj, name, default)\<close> are record fields that
    start at the default.
  \<^item> Logging is a list of entries appended in program order; writing a log line is
    taken not to fail.
  \<^item> \<open>Raises e\<close> stands for an exception of the class \<^verbatim>\<open>Exception\<close> with message
    \<open>e\<close>, which is what the \<^verbatim>\<open>except Exception\<close> clauses of the source catch. The
    cancellation of a task is not modelled.
\<close>

datatype 'a outcome = Returns 'a | Raises string

text \<open>
  The trace of a function: the log lines it writes and the calls it makes to its
  collaborators, in program order. Log messages are abbreviated to a tag.
\<close>

datatype webhook_payload =
    PayloadOk string string
  | PayloadError string string string

datatype effect =
    LogInfo string
  | LogWarn string
  | LogError string
  | RecordErrorJson string
  | FbClose
  | FbLaunch
  | RestartBrowser
  | Goto
  | AgentRun
  | SaveJson
  | HttpPost string webhook_payload
  | CreateSinkTask string
  | CreateWebhookTask string

text \<open>The recognised environment variables, read once into a record.\<close>

record config =
  RECHROME_POLICY :: string
  RECHROME_EVERY_N :: int
  SINK_HITS_BEFORE_TRIGGER :: int
  SINK_COOLDOWN_SEC :: int
  SINK_IDLE_SEC :: int

section \<open>Utilities\<close>

text \<open>\<^verbatim>\<open>to_safe_name\<close>: the part before the first \<^verbatim>\<open>@\<close>, or the whole name.\<close>

definition to_safe_name :: "string \<Rightarrow> string" where
  "to_safe_name uname =
     (if CHR ''@'' \<in> set uname
      then takeWhile (\<lambda>c. c \<noteq> CHR ''@'') uname
      else uname)"

text \<open>Python's \<^verbatim>\<open>needle in haystack\<close> on strings.\<close>

fun contains :: "string \<Rightarrow> string \<Rightarrow> bool" where
  "contains needle [] = (needle = [])"
| "contains needle (c # cs) =
     (take (length needle) (c # cs) = needle \<or> contains needle cs)"

section \<open>The browser resource and the session (modify\_v1.py)\<close>

text \<open>
  Of \<^verbatim>\<open>FBScrape\<close> the core reads and writes the attributes of the warm (``sink'')
  job, \<^verbatim>\<open>_sink_running\<close>, \<^verbatim>\<open>_sink_last_run\<close> and \<^verbatim>\<open>_sink_count\<close>, and
  \<^verbatim>\<open>browser_user\<close> (here: whether it holds a \<^verbatim>\<open>BrowserUser\<close>) and
  \<^verbatim>\<open>did_lazy_init\<close>.
\<close>

record FBScrape =
  fb_data_dir :: string
  did_lazy_init :: bool
  has_browser_user :: bool
  sink_running :: bool
  sink_last_run :: real
  sink_count :: int

definition FBScrape_init :: "string \<Rightarrow> FBScrape" where
  "FBScrape_init dir =
     \<lparr>fb_data_dir = dir, did_lazy_init = False, has_browser_user = False,
      sink_running = False, sink_last_run = 0, sink_count = 0\<rparr>"

text \<open>
  \<^verbatim>\<open>FBScrape._lazy_init\<close>: nothing when the browser was opened before; otherwise the
  browser is launched, and \<open>launch\<close> says what the launch does: it raises, or it
  returns and tells whether the process id of the browser was found.
\<close>

definition lazy_init :: "bool outcome \<Rightarrow> FBScrape \<Rightarrow> unit outcome \<times> FBScrape \<times> effect list" where
  "lazy_init launch f =
     (if did_lazy_init f then (Returns (), f, [])
      else
        (case launch of
           Returns pid \<Rightarrow>
             (Returns (),
              f\<lparr>did_lazy_init := True, has_browser_user := (has_browser_user f \<or> pid)\<rparr>,
              [FbLaunch])
         | Raises e \<Rightarrow> (Raises e, f, [FbLaunch])))"

record UserSession =
  username_full :: string
  username_safe :: string
  browser_data_dir :: string
  fb :: "FBScrape option"
  lock :: bool
  last_used :: real
  closed_flag :: bool
  scrape_job_counter :: int
  sink_hits :: int
  webhook_queue_len :: nat

definition profile_dir :: "string \<Rightarrow> string" where
  "profile_dir safe = ''FDATA/profiles/'' @ safe"

text \<open>\<^verbatim>\<open>UserSession.__init__\<close>, at monotonic time \<open>now\<close>.\<close>

definition UserSession_init :: "string \<Rightarrow> real \<Rightarrow> UserSession" where
  "UserSession_init uname now =
     \<lparr>username_full = uname,
      username_safe = to_safe_name uname,
      browser_data_dir = profile_dir (to_safe_name uname),
      fb = None,
      lock = False,
      last_used = now,
      closed_flag = False,
      scrape_job_counter = 0,
      sink_hits = 0,
      webhook_queue_len = 0\<rparr>"

definition touch :: "real \<Rightarrow> UserSession \<Rightarrow> UserSession" where
  "touch now sess = sess\<lparr>last_used := now\<rparr>"

text \<open>
  \<^verbatim>\<open>UserSession.ensure_fb\<close>. The attribute \<^verbatim>\<open>self.fb\<close> is assigned before
  \<^verbatim>\<open>_lazy_init\<close> is awaited, so it stays set when that call raises.
\<close>

definition ensure_fb :: "bool outcome \<Rightarrow> UserSession \<Rightarrow> FBScrape outcome \<times> UserSession \<times> effect list" where
  "ensure_fb launch sess =
     (if closed_flag sess then (Raises ''Session closed'', sess, [])
      else
        (case fb sess of
           Some f \<Rightarrow> (Returns f, sess, [])
         | None \<Rightarrow>
             (case lazy_init launch (FBScrape_init (browser_data_dir sess)) of
                (Returns _, f, tr) \<Rightarrow>
                  (Returns f, sess\<lparr>fb := Some f\<rparr>, tr @ [LogInfo ''browser opened''])
              | (Raises e, f, tr) \<Rightarrow>
                  (Raises e, sess\<lparr>fb := Some f\<rparr>,
                   tr @ [LogError e, RecordErrorJson ''UserSession.ensure_fb'']))))"

text \<open>
  \<^verbatim>\<open>UserSession.restart_browser\<close>: close the browser if there is one (a failure of
  the close is only a warning), then open a new one.
\<close>

definition restart_browser ::
  "unit outcome \<Rightarrow> bool outcome \<Rightarrow> UserSession \<Rightarrow> unit outcome \<times> UserSession \<times> effect list" where
  "restart_browser fb_close launch sess =
     (if closed_flag sess then (Raises ''Session closed (cannot restart)'', sess, [])
      else
        (let tr1 =
           (case fb sess of
              None \<Rightarrow> []
            | Some _ \<Rightarrow>
                (case fb_close of
                   Returns _ \<Rightarrow> [FbClose]
                 | Raises e \<Rightarrow> [FbClose, LogWarn e]))
         in case lazy_init launch (FBScrape_init (browser_data_dir sess)) of
              (Returns _, f, tr2) \<Rightarrow>
                (Returns (), sess\<lparr>fb := Some f\<rparr>, tr1 @ tr2 @ [LogInfo ''RE-CHROME: opened''])
            | (Raises e, f, tr2) \<Rightarrow>
                (Raises e, sess\<lparr>fb := Some f\<rparr>,
                 tr1 @ tr2 @ [LogError e, RecordErrorJson ''UserSession.restart_browser''])))"

text \<open>
  \<^verbatim>\<open>UserSession.close\<close>. The argument \<open>fb_close\<close> is what \<^verbatim>\<open>await self.fb.close()\<close>
  does when it is reached. The result is what the coroutine does (it has no return
  value), the session afterwards and the trace.
\<close>

definition close :: "unit outcome \<Rightarrow> UserSession \<Rightarrow> unit outcome \<times> UserSession \<times> effect list" where
  "close fb_close sess =
     (if closed_flag sess then (Returns (), sess, [])
      else
        let tr =
          (case fb sess of
             None \<Rightarrow> []
           | Some _ \<Rightarrow>
               (case fb_close of
                  Returns _ \<Rightarrow> [FbClose, LogInfo ''browser closed'']
                | Raises e \<Rightarrow> [FbClose, LogError e, RecordErrorJson ''UserSession.close'']))
        in (Returns (), sess\<lparr>fb := None, closed_flag := True\<rparr>, tr))"

section \<open>The session of tiktok\_scrap\_api.py\<close>

text \<open>
  \<^verbatim>\<open>TikTokScraper.close\<close> catches every \<^verbatim>\<open>Exception\<close> of the driver itself, and
  \<^verbatim>\<open>UserSession.cleanup\<close> wraps its whole body in \<^verbatim>\<open>try/except Exception\<close> with
  \<^verbatim>\<open>self.scraper = None\<close> in \<^verbatim>\<open>finally\<close>. \<open>driver_close\<close> is what the driver calls
  inside \<^verbatim>\<open>cleanup\<close> do.
\<close>

record TikTokScraper =
  tt_data_dir :: string
  headless :: bool

record TTUserSession =
  tt_username_full :: string
  tt_username_safe :: string
  tt_browser_data_dir :: string
  scraper :: "TikTokScraper option"
  tt_lock :: bool
  tt_last_used :: real
  tt_closed :: bool
  stop_flag :: bool
  stop_flag_private :: bool

definition TTUserSession_init :: "string \<Rightarrow> real \<Rightarrow> TTUserSession" where
  "TTUserSession_init uname now =
     \<lparr>tt_username_full = uname,
      tt_username_safe = to_safe_name uname,
      tt_browser_data_dir = profile_dir (to_safe_name uname),
      scraper = None,
      tt_lock = False,
      tt_last_used = now,
      tt_closed = False,
      stop_flag = False,
      stop_flag_private = False\<rparr>"

definition tt_touch :: "real \<Rightarrow> TTUserSession \<Rightarrow> TTUserSession" where
  "tt_touch now sess = sess\<lparr>tt_last_used := now\<rparr>"

definition cleanup :: "unit outcome \<Rightarrow> TTUserSession \<Rightarrow> unit outcome \<times> TTUserSession \<times> effect list" where
  "cleanup driver_close sess =
     (let logs =
        (case scraper sess of
           None \<Rightarrow> []
         | Some _ \<Rightarrow>
             (case driver_close of
                Returns _ \<Rightarrow> []
              | Raises e \<Rightarrow> [LogError e]))
      in (Returns (), sess\<lparr>scraper := None\<rparr>, logs))"

definition tt_close :: "unit outcome \<Rightarrow> TTUserSession \<Rightarrow> unit outcome \<times> TTUserSession \<times> effect list" where
  "tt_close driver_close sess =
     (if tt_closed sess then (Returns (), sess, [])
      else
        (case cleanup driver_close (sess\<lparr>stop_flag_private := True\<rparr>) of
           (Raises e, sess', logs) \<Rightarrow> (Raises e, sess', logs)
         | (Returns _, sess', logs) \<Rightarrow>
             (Returns (), sess'\<lparr>tt_closed := True\<rparr>, logs @ [LogInfo (tt_username_safe sess')])))"

section \<open>The scrape-posts job and the Re-Chrome policy (modify\_v1.py)\<close>

text \<open>
  The policy test of \<^verbatim>\<open>scrape_posts._job\<close>, on the counter value \<open>cnt\<close> the job has
  just stored: \<^verbatim>\<open>before_each\<close>, or \<^verbatim>\<open>every_n\<close> with a positive
  \<^verbatim>\<open>RECHROME_EVERY_N\<close> that divides \<open>cnt\<close>.
\<close>

definition need_restart :: "config \<Rightarrow> int \<Rightarrow> bool" where
  "need_restart cfg cnt =
     (if RECHROME_POLICY cfg = ''before_each'' then True
      else if RECHROME_POLICY cfg = ''every_n'' \<and> RECHROME_EVERY_N cfg > 0
              \<and> cnt mod RECHROME_EVERY_N cfg = 0 then True
      else False)"

text \<open>What the collaborators of one scrape job do when they are called.\<close>

type_synonym scrape_result = "(string \<times> string list) list"

record job_env =
  fb_close_res :: "unit outcome"
  restart_launch_res :: "bool outcome"
  ensure_launch_res :: "bool outcome"
  is_logged_in_res :: "bool outcome"
  run_task_res :: "scrape_result outcome"
  save_json_res :: "unit outcome"

text \<open>
  The first \<^verbatim>\<open>try\<close> block of the job: count the job, test the policy, restart the
  browser if the policy says so. An exception of the restart is caught and logged as a
  warning.
\<close>

definition rechrome_step :: "config \<Rightarrow> job_env \<Rightarrow> UserSession \<Rightarrow> UserSession \<times> effect list" where
  "rechrome_step cfg env sess =
     (let cnt = scrape_job_counter sess + 1;
          sess1 = sess\<lparr>scrape_job_counter := cnt\<rparr>
      in if need_restart cfg cnt then
           (case restart_browser (fb_close_res env) (restart_launch_res env) sess1 of
              (Returns _, sess2, tr) \<Rightarrow> (sess2, [LogInfo ''RE-CHROME'', RestartBrowser] @ tr)
            | (Raises e, sess2, tr) \<Rightarrow>
                (sess2, [LogInfo ''RE-CHROME'', RestartBrowser] @ tr @ [LogWarn e]))
         else (sess1, []))"

text \<open>
  The hit-count trigger at the end of a successful job: when the hits reach the
  threshold and a browser is open, the counter is reset and a warm task is created.
\<close>

definition sink_trigger :: "config \<Rightarrow> UserSession \<Rightarrow> UserSession \<times> effect list" where
  "sink_trigger cfg sess =
     (let hits = sink_hits sess + 1;
          sess1 = sess\<lparr>sink_hits := hits\<rparr>
      in if hits \<ge> SINK_HITS_BEFORE_TRIGGER cfg \<and> fb sess1 \<noteq> None
         then (sess1\<lparr>sink_hits := 0\<rparr>, [CreateSinkTask (username_full sess1)])
         else (sess1, []))"

datatype 'a job_result = JobOk 'a | JobHTTP nat | JobFailed string

text \<open>\<^verbatim>\<open>scrape_posts._job\<close>, the unit of work handed to \<^verbatim>\<open>run_for_user\<close>.\<close>

definition scrape_posts_job ::
  "config \<Rightarrow> job_env \<Rightarrow> UserSession \<Rightarrow> scrape_result job_result \<times> UserSession \<times> effect list" where
  "scrape_posts_job cfg env sess =
     (case rechrome_step cfg env sess of
        (sess1, tr1) \<Rightarrow>
          (case ensure_fb (ensure_launch_res env) sess1 of
             (Raises e, sess2, tr2) \<Rightarrow> (JobFailed e, sess2, tr1 @ tr2)
           | (Returns _, sess2, tr2) \<Rightarrow>
               (case is_logged_in_res env of
                  Raises e \<Rightarrow> (JobFailed e, sess2, tr1 @ tr2)
                | Returns False \<Rightarrow> (JobHTTP 401, sess2, tr1 @ tr2)
                | Returns True \<Rightarrow>
                    (case run_task_res env of
                       Raises e \<Rightarrow>
                         (if contains ''FB_SESSION_LOST'' e then JobHTTP 401 else JobFailed e,
                          sess2, tr1 @ tr2)
                     | Returns result \<Rightarrow>
                         (case save_json_res env of
                            Raises e \<Rightarrow> (JobFailed e, sess2, tr1 @ tr2 @ [SaveJson])
                          | Returns _ \<Rightarrow>
                              (case sink_trigger cfg sess2 of
                                 (sess3, tr3) \<Rightarrow>
                                   (JobOk result, sess3,
                                    tr1 @ tr2 @ [SaveJson, LogInfo ''saved''] @ tr3)))))))"



section \<open>The warm job (modify\_v1.py, randomtask)\<close>

text \<open>
  Python's \<^verbatim>\<open>round(x, 1)\<close>, read on exact numbers: the nearest multiple of one
  tenth, a tie going to the even one.
\<close>

definition py_round1 :: "real \<Rightarrow> real" where
  "py_round1 x =
     (let y = x * 10; f = \<lfloor>y\<rfloor>; d = y - of_int f
      in of_int (if d < 1 / 2 then f
                 else if 1 / 2 < d then f + 1
                 else if even f then f else f + 1) / 10)"

datatype sink_result =
    SinkOk
  | SinkCooldown real
  | SinkNoBrowserPid
  | SinkError string

text \<open>
  What the collaborators of one warm job do when they are called. The two navigations
  to a light page are wrapped in \<^verbatim>\<open>try/except: pass\<close>, so what they do has no
  influence and is not recorded.
\<close>

record sink_env =
  sink_launch_res :: "bool outcome"
  pid_found :: bool
  agent_res :: "string outcome"
  sink_save_res :: "unit outcome"
  final_pid_found :: bool

text \<open>
  The cooldown test at the head of the \<^verbatim>\<open>try\<close> block: \<^verbatim>\<open>last_run\<close> is the
  attribute \<^verbatim>\<open>_sink_last_run\<close> of the browser object (0.0 when it was never set);
  the result is the remaining wait when the test holds.
\<close>

definition sink_cooldown :: "config \<Rightarrow> real \<Rightarrow> FBScrape \<Rightarrow> real option" where
  "sink_cooldown cfg now f =
     (let last_run = sink_last_run f; cooldown_sec = real_of_int (SINK_COOLDOWN_SEC cfg)
      in if last_run \<noteq> 0 \<and> now - last_run < cooldown_sec
         then Some (py_round1 (max 0 (cooldown_sec - (now - last_run))))
         else None)"

text \<open>
  The \<^verbatim>\<open>try\<close> block of \<^verbatim>\<open>randomtask\<close> with its \<^verbatim>\<open>except\<close> clause. \<open>now\<close> is the
  clock at the cooldown test, \<open>now_done\<close> the clock when the result has been saved.
\<close>

definition sink_body ::
  "config \<Rightarrow> sink_env \<Rightarrow> real \<Rightarrow> real \<Rightarrow> FBScrape \<Rightarrow> sink_result \<times> FBScrape \<times> effect list" where
  "sink_body cfg env now now_done f =
     (case sink_cooldown cfg now f of
        Some remain \<Rightarrow> (SinkCooldown remain, f, [])
      | None \<Rightarrow>
          (if \<not> has_browser_user f \<and> \<not> pid_found env
           then (SinkNoBrowserPid, f, [Goto, LogWarn ''SINK: no browser pid''])
           else
             (let f1 = f\<lparr>has_browser_user := True\<rparr>
              in case agent_res env of
                   Raises e \<Rightarrow>
                     (SinkError e, f1, [Goto, AgentRun, LogError e, RecordErrorJson ''sink''])
                 | Returns out \<Rightarrow>
                     (case sink_save_res env of
                        Raises e \<Rightarrow>
                          (SinkError e, f1,
                           [Goto, AgentRun, SaveJson, LogError e, RecordErrorJson ''sink''])
                      | Returns _ \<Rightarrow>
                          (SinkOk,
                           f1\<lparr>sink_last_run := now_done, sink_count := sink_count f1 + 1\<rparr>,
                           [Goto, AgentRun, SaveJson, LogInfo ''SINK: saved''])))))"

text \<open>
  \<^verbatim>\<open>randomtask\<close>: open the browser if needed (a failure here is raised to the
  caller), set the running flag, run the body, and in \<^verbatim>\<open>finally\<close> go back to a light
  page and clear the running flag. The lock \<^verbatim>\<open>_sink_lock\<close> of the browser object lets
  one call at a time into this code; the function describes a call from the moment it
  holds that lock.
\<close>

definition randomtask ::
  "config \<Rightarrow> sink_env \<Rightarrow> real \<Rightarrow> real \<Rightarrow> FBScrape \<Rightarrow> sink_result outcome \<times> FBScrape \<times> effect list" where
  "randomtask cfg env now now_done f =
     (case lazy_init (sink_launch_res env) f of
        (Raises e, f0, tr0) \<Rightarrow> (Raises e, f0, tr0)
      | (Returns _, f0, tr0) \<Rightarrow>
          (let pre = (if sink_running f0 then [LogWarn ''SINK: already running''] else [])
           in case sink_body cfg env now now_done (f0\<lparr>sink_running := True\<rparr>) of
                (res, f1, tr1) \<Rightarrow>
                  (Returns res,
                   f1\<lparr>has_browser_user := (has_browser_user f1 \<or> final_pid_found env),
                      sink_running := False\<rparr>,
                   tr0 @ pre @ tr1 @ [Goto])))"

text \<open>
  \<^verbatim>\<open>_sink_job\<close>, the unit of work the warm triggers hand to \<^verbatim>\<open>run_for_sys\<close>:
  \<^verbatim>\<open>await randomtask(sess_in.fb)\<close>. Without a browser object the attribute access on
  \<^verbatim>\<open>None\<close> raises.
\<close>

definition sink_job ::
  "config \<Rightarrow> sink_env \<Rightarrow> real \<Rightarrow> real \<Rightarrow> UserSession \<Rightarrow> sink_result outcome \<times> UserSession \<times> effect list" where
  "sink_job cfg env now now_done sess =
     (case fb sess of
        None \<Rightarrow> (Raises ''AttributeError'', sess, [])
      | Some f \<Rightarrow>
          (case randomtask cfg env now now_done f of
             (res, f', tr) \<Rightarrow> (res, sess\<lparr>fb := Some f'\<rparr>, tr)))"


section \<open>The session manager (modify\_v1.py)\<close>

text \<open>
  \<^verbatim>\<open>self.sessions\<close> is a dictionary from the raw user name to a session object.
  \<^verbatim>\<open>get_or_create\<close> is the only place that stores into it, and it always stores an
  object it has just created, so no object is stored under two keys. The dictionary is
  an association list, in insertion order, from each key to the current value of its
  object; storing under a key that is present replaces the value in place, as a Python
  dictionary does. A function that changes a session it took from the registry writes
  the new value back under the key.
\<close>

record SessionManager =
  idle_timeout_sec :: int
  sessions :: "(string \<times> UserSession) list"

definition SessionManager_init :: "int \<Rightarrow> SessionManager" where
  "SessionManager_init timeout = \<lparr>idle_timeout_sec = timeout, sessions = []\<rparr>"

definition set_session :: "string \<Rightarrow> UserSession \<Rightarrow> SessionManager \<Rightarrow> SessionManager" where
  "set_session uname sess m = m\<lparr>sessions := AList.update uname sess (sessions m)\<rparr>"

definition pop_session :: "string \<Rightarrow> SessionManager \<Rightarrow> SessionManager" where
  "pop_session uname m = m\<lparr>sessions := AList.delete uname (sessions m)\<rparr>"

text \<open>\<^verbatim>\<open>SessionManager.get_or_create\<close>, at monotonic time \<open>now\<close>.\<close>

definition get_or_create :: "real \<Rightarrow> string \<Rightarrow> SessionManager \<Rightarrow> UserSession \<times> SessionManager" where
  "get_or_create now uname m =
     (case map_of (sessions m) uname of
        Some sess \<Rightarrow>
          (if closed_flag sess
           then (UserSession_init uname now, set_session uname (UserSession_init uname now) m)
           else (sess, m))
      | None \<Rightarrow> (UserSession_init uname now, set_session uname (UserSession_init uname now) m))"

text \<open>
  \<^verbatim>\<open>run_for_user\<close> in two halves, up to the call of the job and after it. Entering
  looks the session up and takes its lock; on a lock that is held the caller waits, which
  is the value \<open>None\<close>. The three clock readings are those of \<^verbatim>\<open>UserSession.__init__\<close>
  (if a session is created) and of the two calls of \<^verbatim>\<open>touch\<close>.
\<close>

definition enter_user ::
  "real \<Rightarrow> real \<Rightarrow> string \<Rightarrow> SessionManager \<Rightarrow> (UserSession \<times> SessionManager) option" where
  "enter_user now_create now_acq uname m =
     (case get_or_create now_create uname m of
        (sess, m1) \<Rightarrow>
          (if lock sess then None
           else (let sess1 = touch now_acq (sess\<lparr>lock := True\<rparr>)
                 in Some (sess1, set_session uname sess1 m1))))"

definition exit_user :: "real \<Rightarrow> string \<Rightarrow> UserSession \<Rightarrow> SessionManager \<Rightarrow> SessionManager" where
  "exit_user now_rel uname sess m = set_session uname ((touch now_rel sess)\<lparr>lock := False\<rparr>) m"

definition run_for_user ::
  "real \<Rightarrow> real \<Rightarrow> real \<Rightarrow> string \<Rightarrow> (UserSession \<Rightarrow> 'r \<times> UserSession \<times> effect list)
     \<Rightarrow> SessionManager \<Rightarrow> ('r \<times> SessionManager \<times> effect list) option" where
  "run_for_user now_create now_acq now_rel uname coro_func m =
     (case enter_user now_create now_acq uname m of
        None \<Rightarrow> None
      | Some (sess, m1) \<Rightarrow>
          (case coro_func sess of
             (res, sess', tr) \<Rightarrow> Some (res, exit_user now_rel uname sess' m1, tr)))"

text \<open>
  \<^verbatim>\<open>run_for_sys\<close>, the same way. Its body is \<^verbatim>\<open>try: return await coro_func(sess)\<close>
  with \<^verbatim>\<open>finally: pass\<close>: it takes the same lock and never calls \<^verbatim>\<open>touch\<close>.
\<close>

definition enter_sys ::
  "real \<Rightarrow> string \<Rightarrow> SessionManager \<Rightarrow> (UserSession \<times> SessionManager) option" where
  "enter_sys now_create uname m =
     (case get_or_create now_create uname m of
        (sess, m1) \<Rightarrow>
          (if lock sess then None
           else (let sess1 = sess\<lparr>lock := True\<rparr>
                 in Some (sess1, set_session uname sess1 m1))))"

definition exit_sys :: "string \<Rightarrow> UserSession \<Rightarrow> SessionManager \<Rightarrow> SessionManager" where
  "exit_sys uname sess m = set_session uname (sess\<lparr>lock := False\<rparr>) m"

definition run_for_sys ::
  "real \<Rightarrow> string \<Rightarrow> (UserSession \<Rightarrow> 'r \<times> UserSession \<times> effect list)
     \<Rightarrow> SessionManager \<Rightarrow> ('r \<times> SessionManager \<times> effect list) option" where
  "run_for_sys now_create uname coro_func m =
     (case enter_sys now_create uname m of
        None \<Rightarrow> None
      | Some (sess, m1) \<Rightarrow>
          (case coro_func sess of
             (res, sess', tr) \<Rightarrow> Some (res, exit_sys uname sess' m1, tr)))"

text \<open>
  The loop body of \<^verbatim>\<open>janitor_loop\<close> at monotonic time \<open>now\<close>. The first loop reads
  the registry without waiting for anything: it collects the keys to close and creates
  the warm tasks.
\<close>

fun janitor_scan ::
  "config \<Rightarrow> int \<Rightarrow> real \<Rightarrow> (string \<times> UserSession) list \<Rightarrow> string list \<times> effect list" where
  "janitor_scan cfg timeout now [] = ([], [])"
| "janitor_scan cfg timeout now ((uname, sess) # rest) =
     (case janitor_scan cfg timeout now rest of
        (to_close, tr) \<Rightarrow>
          (if closed_flag sess then (uname # to_close, tr)
           else
             (let idle = now - last_used sess;
                  spawn =
                    (case fb sess of
                       None \<Rightarrow> []
                     | Some f \<Rightarrow>
                         (if idle \<ge> real_of_int (SINK_IDLE_SEC cfg) \<and> idle < real_of_int timeout
                             \<and> \<not> sink_running f
                          then [CreateSinkTask uname] else []));
                  evict = (if idle > real_of_int timeout \<and> \<not> lock sess then [uname] else [])
              in (evict @ to_close, spawn @ tr))))"

text \<open>
  The second loop closes the collected sessions, one key after the other. For a key it
  looks the session up and tests it (\<^verbatim>\<open>sess and not sess.closed and not
  sess.lock.locked()\<close>); when the test passes it logs and awaits \<^verbatim>\<open>sess.close()\<close>,
  and then removes the key. \<^verbatim>\<open>UserSession.close\<close> awaits \<^verbatim>\<open>self.fb.close()\<close> when
  the session has a browser object, and sets \<^verbatim>\<open>self.fb = None\<close> and
  \<^verbatim>\<open>self.closed = True\<close> in its \<^verbatim>\<open>finally\<close> clause, when that call is over. Other
  tasks run while the janitor waits there, so the loop body for one key is two stretches
  of code, one on each side of the \<^verbatim>\<open>await\<close>.

  \<open>janitor_close_begin\<close> is the first stretch: the key is skipped, or (no browser object,
  nothing to wait for) the session is closed and removed at once, or the janitor has
  called \<^verbatim>\<open>self.fb.close()\<close> and waits.
\<close>

datatype 'm janitor_progress = Skip | Done 'm "effect list" | Await 'm "effect list"

definition janitor_close_begin :: "string \<Rightarrow> SessionManager \<Rightarrow> SessionManager janitor_progress" where
  "janitor_close_begin uname m =
     (case map_of (sessions m) uname of
        None \<Rightarrow> Skip
      | Some sess \<Rightarrow>
          (if \<not> closed_flag sess \<and> \<not> lock sess then
             (case fb sess of
                None \<Rightarrow> Done (pop_session uname m) [LogInfo ''[Janitor] Close idle session'']
              | Some _ \<Rightarrow> Await m [LogInfo ''[Janitor] Close idle session'', FbClose])
           else Skip))"

text \<open>
  The second stretch, when \<^verbatim>\<open>self.fb.close()\<close> is over with the outcome \<open>fb_close\<close>:
  the rest of \<^verbatim>\<open>UserSession.close\<close> and \<^verbatim>\<open>self.sessions.pop\<close>. \<open>sess\<close> is the value
  the session object has at that moment; nothing is tested again. The result is the
  object afterwards, the registry afterwards and the trace.
\<close>

definition janitor_close_resume ::
  "unit outcome \<Rightarrow> string \<Rightarrow> UserSession \<Rightarrow> SessionManager
     \<Rightarrow> UserSession \<times> SessionManager \<times> effect list" where
  "janitor_close_resume fb_close uname sess m =
     (sess\<lparr>fb := None, closed_flag := True\<rparr>,
      pop_session uname m,
      (case fb_close of
         Returns _ \<Rightarrow> [LogInfo ''browser closed'']
       | Raises e \<Rightarrow> [LogError e, RecordErrorJson ''UserSession.close'']))"

text \<open>The endpoint \<^verbatim>\<open>DELETE /sessions/{username_full}\<close>, \<^verbatim>\<open>close_session\<close>.\<close>

datatype http_response = HttpOk string | HttpError nat

definition close_session ::
  "unit outcome \<Rightarrow> string \<Rightarrow> SessionManager \<Rightarrow> http_response \<times> SessionManager \<times> effect list" where
  "close_session fb_close uname m =
     (case map_of (sessions m) uname of
        None \<Rightarrow> (HttpOk ''session not found'', m, [])
      | Some sess \<Rightarrow>
          (if lock sess then (HttpError 400, m, [])
           else
             (case close fb_close sess of
                (_, sess', tr) \<Rightarrow> (HttpOk ''session closed'', pop_session uname m, tr))))"

section \<open>The webhook job (modify\_v1.py)\<close>

text \<open>
  \<^verbatim>\<open>_post_webhook\<close>: nothing for an empty URL; otherwise one \<^verbatim>\<open>client.post\<close>, whose
  answer (a status code) is logged and whose exception is logged as a warning. \<open>transport\<close>
  is what the HTTP client does.
\<close>

definition post_webhook :: "nat outcome \<Rightarrow> string \<Rightarrow> webhook_payload \<Rightarrow> effect list" where
  "post_webhook transport url payload =
     (if url = [] then []
      else
        (case transport of
           Returns status \<Rightarrow> [HttpPost url payload, LogInfo ''Webhook POST status'']
         | Raises e \<Rightarrow> [HttpPost url payload, LogWarn e]))"

text \<open>The outer \<^verbatim>\<open>except Exception\<close> clause of \<^verbatim>\<open>_bg_job\<close>.\<close>

definition bg_error :: "nat outcome \<Rightarrow> string \<Rightarrow> string \<Rightarrow> UserSession \<Rightarrow> string \<Rightarrow> effect list" where
  "bg_error transport webhook_url task_id sess e =
     [LogError e, RecordErrorJson ''endpoint.scrape_posts_webhook.bg'']
     @ post_webhook transport webhook_url (PayloadError task_id (username_safe sess) e)"

text \<open>
  \<^verbatim>\<open>scrape_posts_webhook._bg_job\<close>, the unit of work of an accepted webhook
  submission. It returns nothing; its outcome goes to the webhook. An exception is
  delivered with its text (\<^verbatim>\<open>str(e)\<close>); the two fixed messages of the source, for a
  missing login and for a lost session, are Thai sentences and are written here
  \<open>''not logged in''\<close> and \<open>''session lost''\<close>.
\<close>

definition webhook_bg_job ::
  "config \<Rightarrow> job_env \<Rightarrow> nat outcome \<Rightarrow> string \<Rightarrow> string \<Rightarrow> UserSession
     \<Rightarrow> unit \<times> UserSession \<times> effect list" where
  "webhook_bg_job cfg env transport webhook_url task_id sess =
     (case rechrome_step cfg env sess of
        (sess1, tr1) \<Rightarrow>
          (case ensure_fb (ensure_launch_res env) sess1 of
             (Raises e, sess2, tr2) \<Rightarrow>
               ((), sess2, tr1 @ tr2 @ bg_error transport webhook_url task_id sess2 e)
           | (Returns _, sess2, tr2) \<Rightarrow>
               (case is_logged_in_res env of
                  Raises e \<Rightarrow>
                    ((), sess2, tr1 @ tr2 @ bg_error transport webhook_url task_id sess2 e)
                | Returns False \<Rightarrow>
                    ((), sess2,
                     tr1 @ tr2
                     @ post_webhook transport webhook_url
                         (PayloadError task_id (username_safe sess2) ''not logged in''))
                | Returns True \<Rightarrow>
                    (case run_task_res env of
                       Raises e \<Rightarrow>
                         ((), sess2,
                          tr1 @ tr2
                          @ post_webhook transport webhook_url
                              (PayloadError task_id (username_safe sess2)
                                 (if contains ''FB_SESSION_LOST'' e then ''session lost'' else e)))
                     | Returns result \<Rightarrow>
                         (case save_json_res env of
                            Raises e \<Rightarrow>
                              ((), sess2,
                               tr1 @ tr2 @ [SaveJson]
                               @ bg_error transport webhook_url task_id sess2 e)
                          | Returns _ \<Rightarrow>
                              (case sink_trigger cfg sess2 of
                                 (sess3, tr3) \<Rightarrow>
                                   ((), sess3,
                                    tr1 @ tr2 @ [SaveJson, LogInfo ''saved'']
                                    @ post_webhook transport webhook_url
                                        (PayloadOk task_id (username_safe sess2))
                                    @ tr3)))))))"


text \<open>
  The endpoint \<^verbatim>\<open>scrape_posts_webhook\<close> up to its response. \<open>username_full\<close> and
  \<open>webhook_url\<close> are the request's fields after \<^verbatim>\<open>strip()\<close>, \<open>has_profile\<close> is the
  answer of \<^verbatim>\<open>profile_has_data\<close>, \<open>task_id\<close> the identifier made for the job. The response
  carries the status and the queue position.
\<close>

datatype webhook_response = WebhookRejected nat | WebhookAccepted string int

definition scrape_posts_webhook ::
  "bool \<Rightarrow> real \<Rightarrow> string \<Rightarrow> string \<Rightarrow> string \<Rightarrow> SessionManager
     \<Rightarrow> webhook_response \<times> SessionManager \<times> effect list" where
  "scrape_posts_webhook has_profile now uname webhook_url task_id m =
     (if uname = [] then (WebhookRejected 400, m, [])
      else if \<not> has_profile then (WebhookRejected 400, m, [])
      else if webhook_url = [] then (WebhookRejected 400, m, [])
      else
        (case get_or_create now uname m of
           (sess, m1) \<Rightarrow>
             (case get_or_create now uname m1 of
                (sess', m2) \<Rightarrow>
                  (let running = lock sess';
                       queue_len = webhook_queue_len sess;
                       position = int queue_len + (if running then 1 else 0) + 1;
                       m3 = set_session uname (sess\<lparr>webhook_queue_len := queue_len + 1\<rparr>) m2
                   in (WebhookAccepted (if position > 1 then ''queued'' else ''running'') position,
                       m3, [CreateWebhookTask task_id])))))"

text \<open>
  \<^verbatim>\<open>_schedule\<close>, the task the endpoint creates: the job goes through
  \<^verbatim>\<open>run_for_user\<close>, and afterwards the queue counter of the session is lowered, not
  below zero.
\<close>

definition schedule ::
  "config \<Rightarrow> job_env \<Rightarrow> nat outcome \<Rightarrow> real \<Rightarrow> real \<Rightarrow> real \<Rightarrow> string \<Rightarrow> string \<Rightarrow> string
     \<Rightarrow> SessionManager \<Rightarrow> (SessionManager \<times> effect list) option" where
  "schedule cfg env transport now_create now_acq now_rel uname webhook_url task_id m =
     (case run_for_user now_create now_acq now_rel uname
             (webhook_bg_job cfg env transport webhook_url task_id) m of
        None \<Rightarrow> None
      | Some (_, m1, tr) \<Rightarrow>
          (case map_of (sessions m1) uname of
             None \<Rightarrow> Some (m1, tr)
           | Some sess \<Rightarrow>
               Some (set_session uname (sess\<lparr>webhook_queue_len := webhook_queue_len sess - 1\<rparr>) m1,
                     tr)))"

section \<open>The session manager of tiktok\_scrap\_api.py\<close>

record TTSessionManager =
  tt_idle_timeout_sec :: int
  tt_sessions :: "(string \<times> TTUserSession) list"

definition TTSessionManager_init :: "int \<Rightarrow> TTSessionManager" where
  "TTSessionManager_init timeout = \<lparr>tt_idle_timeout_sec = timeout, tt_sessions = []\<rparr>"

text \<open>
  \<^verbatim>\<open>SessionManager.get_or_create\<close> and the first half of \<^verbatim>\<open>run_for_user\<close>, which
  are the code of modify\_v1.py again (the log line of a creation is left out).
\<close>

definition tt_get_or_create ::
  "real \<Rightarrow> string \<Rightarrow> TTSessionManager \<Rightarrow> TTUserSession \<times> TTSessionManager" where
  "tt_get_or_create now uname m =
     (case map_of (tt_sessions m) uname of
        Some sess \<Rightarrow>
          (if tt_closed sess
           then (TTUserSession_init uname now,
                 m\<lparr>tt_sessions := AList.update uname (TTUserSession_init uname now) (tt_sessions m)\<rparr>)
           else (sess, m))
      | None \<Rightarrow>
          (TTUserSession_init uname now,
           m\<lparr>tt_sessions := AList.update uname (TTUserSession_init uname now) (tt_sessions m)\<rparr>))"

definition tt_enter_user ::
  "real \<Rightarrow> real \<Rightarrow> string \<Rightarrow> TTSessionManager \<Rightarrow> (TTUserSession \<times> TTSessionManager) option" where
  "tt_enter_user now_create now_acq uname m =
     (case tt_get_or_create now_create uname m of
        (sess, m1) \<Rightarrow>
          (if tt_lock sess then None
           else (let sess1 = tt_touch now_acq (sess\<lparr>tt_lock := True\<rparr>)
                 in Some (sess1, m1\<lparr>tt_sessions := AList.update uname sess1 (tt_sessions m1)\<rparr>))))"

text \<open>
  The body of the \<^verbatim>\<open>for\<close> loop of \<^verbatim>\<open>janitor_loop\<close> for one key of the snapshot
  \<^verbatim>\<open>list(self.sessions.items())\<close>, at the clock reading \<open>now\<close> of the pass. The session
  is tested (\<^verbatim>\<open>not sess.lock.locked() and idle_time > self.idle_timeout_sec\<close>); when the
  test passes, the janitor logs and awaits \<^verbatim>\<open>sess.close()\<close>, and then removes the key.
  \<^verbatim>\<open>UserSession.close\<close> returns at once on a closed session; otherwise it sets
  \<^verbatim>\<open>_stop_flag\<close>, awaits \<^verbatim>\<open>asyncio.sleep(0.5)\<close>, awaits \<^verbatim>\<open>cleanup\<close> and only then
  sets \<^verbatim>\<open>closed\<close>. Other tasks run during the sleep, so the loop body is two stretches
  of code here too. The object of the snapshot is taken to be the one that is registered
  under the key when the loop reaches it.
\<close>

definition tt_janitor_begin ::
  "real \<Rightarrow> string \<Rightarrow> TTSessionManager \<Rightarrow> TTSessionManager janitor_progress" where
  "tt_janitor_begin now uname m =
     (case map_of (tt_sessions m) uname of
        None \<Rightarrow> Skip
      | Some sess \<Rightarrow>
          (if \<not> tt_lock sess \<and> now - tt_last_used sess > real_of_int (tt_idle_timeout_sec m) then
             (if tt_closed sess
              then Done (m\<lparr>tt_sessions := AList.delete uname (tt_sessions m)\<rparr>)
                     [LogInfo ''[TIMEOUT] Closing browser'', LogInfo ''[TIMEOUT] Browser closed'']
              else Await (m\<lparr>tt_sessions :=
                               AList.update uname (sess\<lparr>stop_flag_private := True\<rparr>) (tt_sessions m)\<rparr>)
                     [LogInfo ''[TIMEOUT] Closing browser''])
           else Skip))"

text \<open>
  The second stretch, after the sleep: \<^verbatim>\<open>cleanup\<close>, \<^verbatim>\<open>self.closed = True\<close>, the log
  line of \<^verbatim>\<open>close\<close>, and \<^verbatim>\<open>self.sessions.pop\<close> with the log line of the loop. \<open>sess\<close> is
  the value the session object has when the sleep is over; nothing is tested again.
\<close>

definition tt_janitor_resume ::
  "unit outcome \<Rightarrow> string \<Rightarrow> TTUserSession \<Rightarrow> TTSessionManager
     \<Rightarrow> TTUserSession \<times> TTSessionManager \<times> effect list" where
  "tt_janitor_resume driver_close uname sess m =
     (case cleanup driver_close sess of
        (_, sess', logs) \<Rightarrow>
          (sess'\<lparr>tt_closed := True\<rparr>,
           m\<lparr>tt_sessions := AList.delete uname (tt_sessions m)\<rparr>,
           logs @ [LogInfo (tt_username_safe sess'), LogInfo ''[TIMEOUT] Browser closed'']))"

section \<open>Concurrent admissions\<close>

text \<open>
  Jobs of several tasks interleave at the \<^verbatim>\<open>await\<close> points of \<^verbatim>\<open>run_for_user\<close> and
  \<^verbatim>\<open>run_for_sys\<close> (which are the same code in both files, apart from \<^verbatim>\<open>touch\<close>): a
  task looks its session up, waits for the lock, holds it while its job runs, and
  releases it. A task keeps the session object it looked up, also when that object has
  left the registry in the meantime, so here the session objects live in a store and the
  registry and the tasks hold references into it. A reference in the registry always
  points into the store; the bound tests below only make the functions total.

  The steps are those of the event loop: code between two \<^verbatim>\<open>await\<close> points runs as one
  step. A step that cannot happen in the current state (taking a lock that is held) has
  the value \<open>None\<close>. Of the job itself only the lock matters here; what it does to the
  browser and the counters of its session is left out.
\<close>

type_synonym ref = nat

datatype path = UserPath | SysPath

datatype pc = Waiting | Holding

record task =
  task_uname :: string
  task_path :: path
  task_ref :: ref
  task_pc :: pc

record world =
  registry :: "(string \<times> ref) list"
  objects :: "UserSession list"
  tasks :: "nat \<Rightarrow> task option"

definition world_init :: world where
  "world_init = \<lparr>registry = [], objects = [], tasks = (\<lambda>_. None)\<rparr>"

text \<open>\<^verbatim>\<open>SessionManager.get_or_create\<close> on the store.\<close>

definition create_ref :: "real \<Rightarrow> string \<Rightarrow> world \<Rightarrow> ref \<times> world" where
  "create_ref now uname w =
     (length (objects w),
      w\<lparr>registry := AList.update uname (length (objects w)) (registry w),
        objects := objects w @ [UserSession_init uname now]\<rparr>)"

definition get_or_create_ref :: "real \<Rightarrow> string \<Rightarrow> world \<Rightarrow> ref \<times> world" where
  "get_or_create_ref now uname w =
     (case map_of (registry w) uname of
        Some r \<Rightarrow>
          (if r < length (objects w) \<and> \<not> closed_flag (objects w ! r) then (r, w)
           else create_ref now uname w)
      | None \<Rightarrow> create_ref now uname w)"

text \<open>
  The endpoint \<^verbatim>\<open>delete_profile\<close> as far as the sessions go: all sessions whose safe
  name is that of the request are closed and removed from the registry, unless one of
  them is locked and the request does not force the deletion.
\<close>

definition delete_profile_ref :: "string \<Rightarrow> bool \<Rightarrow> unit outcome \<Rightarrow> world \<Rightarrow> world" where
  "delete_profile_ref uname force fb_close w =
     (let targets =
            filter (\<lambda>(k, r). r < length (objects w)
                             \<and> username_safe (objects w ! r) = to_safe_name uname)
              (registry w)
      in if uname = [] then w
         else if list_ex (\<lambda>(k, r). lock (objects w ! r)) targets \<and> \<not> force then w
         else
           foldl (\<lambda>w' (k, r).
                    w'\<lparr>objects := (objects w')[r := fst (snd (close fb_close (objects w' ! r)))],
                       registry := AList.delete k (registry w')\<rparr>)
             w targets)"

datatype event =
    Admit nat path string real
  | Acquire nat real
  | Release nat real
  | DeleteProfile string bool "unit outcome"

text \<open>
  \<open>Admit tid p uname now\<close>: task \<open>tid\<close> calls \<^verbatim>\<open>run_for_user\<close> or \<^verbatim>\<open>run_for_sys\<close>
  (by \<open>p\<close>) for \<open>uname\<close> and has done \<^verbatim>\<open>get_or_create\<close>. \<open>Acquire\<close>: it enters
  \<^verbatim>\<open>async with sess.lock\<close>, which needs the lock free, and on the user path calls
  \<^verbatim>\<open>touch\<close>. \<open>Release\<close>: its job has ended; on the user path it calls \<^verbatim>\<open>touch\<close>, and
  the lock is freed. Which of several waiting tasks gets a free lock is left open
  (\<^verbatim>\<open>asyncio.Lock\<close> wakes the one that has waited longest), so every order of the
  event loop is a run of the model.
\<close>

fun step :: "event \<Rightarrow> world \<Rightarrow> world option" where
  "step (Admit tid p uname now) w =
     (case tasks w tid of
        Some _ \<Rightarrow> None
      | None \<Rightarrow>
          (case get_or_create_ref now uname w of
             (r, w1) \<Rightarrow>
               Some (w1\<lparr>tasks := (tasks w1)(tid \<mapsto>
                         \<lparr>task_uname = uname, task_path = p, task_ref = r, task_pc = Waiting\<rparr>)\<rparr>)))"
| "step (Acquire tid now) w =
     (case tasks w tid of
        None \<Rightarrow> None
      | Some t \<Rightarrow>
          (if task_pc t = Waiting \<and> task_ref t < length (objects w)
              \<and> \<not> lock (objects w ! task_ref t)
           then
             (let sess = (objects w ! task_ref t)\<lparr>lock := True\<rparr>;
                  sess' = (if task_path t = UserPath then touch now sess else sess)
              in Some (w\<lparr>objects := (objects w)[task_ref t := sess'],
                         tasks := (tasks w)(tid \<mapsto> t\<lparr>task_pc := Holding\<rparr>)\<rparr>))
           else None))"
| "step (Release tid now) w =
     (case tasks w tid of
        None \<Rightarrow> None
      | Some t \<Rightarrow>
          (if task_pc t = Holding \<and> task_ref t < length (objects w)
           then
             (let sess = objects w ! task_ref t;
                  sess' = (if task_path t = UserPath then touch now sess else sess)
              in Some (w\<lparr>objects := (objects w)[task_ref t := sess'\<lparr>lock := False\<rparr>],
                         tasks := (tasks w)(tid := None)\<rparr>))
           else None))"
| "step (DeleteProfile uname force fb_close) w = Some (delete_profile_ref uname force fb_close w)"

fun run :: "event list \<Rightarrow> world \<Rightarrow> world option" where
  "run [] w = Some w"
| "run (e # es) w = (case step e w of None \<Rightarrow> None | Some w' \<Rightarrow> run es w')"

fun closes :: "event \<Rightarrow> bool" where
  "closes (DeleteProfile _ _ _) = True"
| "closes _ = False"

text \<open>
  What holds of every state reached without a closing event: registry references point
  into the store, no session is closed, every task's session is the one registered
  under its user name, a task that holds a session has it locked, and no two tasks hold
  the same session.
\<close>

definition refs_ok :: "world \<Rightarrow> bool" where
  "refs_ok w = (\<forall>k r. map_of (registry w) k = Some r \<longrightarrow> r < length (objects w))"

definition none_closed :: "world \<Rightarrow> bool" where
  "none_closed w = (\<forall>r. r < length (objects w) \<longrightarrow> \<not> closed_flag (objects w ! r))"

definition tasks_registered :: "world \<Rightarrow> bool" where
  "tasks_registered w =
     (\<forall>tid t. tasks w tid = Some t \<longrightarrow> map_of (registry w) (task_uname t) = Some (task_ref t))"

definition holders_locked :: "world \<Rightarrow> bool" where
  "holders_locked w =
     (\<forall>tid t. tasks w tid = Some t \<longrightarrow> task_pc t = Holding \<longrightarrow> lock (objects w ! task_ref t))"

definition one_holder :: "world \<Rightarrow> bool" where
  "one_holder w =
     (\<forall>t1 t2 a b. tasks w t1 = Some a \<longrightarrow> tasks w t2 = Some b \<longrightarrow>
        task_pc a = Holding \<longrightarrow> task_pc b = Holding \<longrightarrow> task_ref a = task_ref b \<longrightarrow> t1 = t2)"

definition admission_inv :: "world \<Rightarrow> bool" where
  "admission_inv w =
     (refs_ok w \<and> none_closed w \<and> tasks_registered w \<and> holders_locked w \<and> one_holder w)"

section \<open>Properties of the scrape job\<close>

lemma lazy_init_no_marker:
  "RestartBrowser \<notin> set (snd (snd (lazy_init l f)))"
  by (simp add: lazy_init_def split: outcome.split)


lemma restart_browser_no_marker:
  "RestartBrowser \<notin> set (snd (snd (restart_browser c l sess)))"
proof -
  obtain r f tr where li: "lazy_init l (FBScrape_init (browser_data_dir sess)) = (r, f, tr)"
    by (cases "lazy_init l (FBScrape_init (browser_data_dir sess))")
  have "RestartBrowser \<notin> set tr"
    using lazy_init_no_marker [of l "FBScrape_init (browser_data_dir sess)"] li by simp
  then show ?thesis
    by (simp add: restart_browser_def Let_def li split: outcome.split option.split)
qed



lemma restart_browser_fb:
  "fb (fst (snd (restart_browser c l sess)))
     = (if closed_flag sess then fb sess
        else Some (fst (snd (lazy_init l (FBScrape_init (browser_data_dir sess))))))"
  by (simp add: restart_browser_def Let_def split: outcome.split prod.split)

lemma rechrome_step_fb:
  "fb (fst (rechrome_step cfg env sess))
     = (if need_restart cfg (scrape_job_counter sess + 1) \<and> \<not> closed_flag sess
        then Some (fst (snd (lazy_init (restart_launch_res env) (FBScrape_init (browser_data_dir sess)))))
        else fb sess)"
proof -
  let ?s1 = "sess\<lparr>scrape_job_counter := scrape_job_counter sess + 1\<rparr>"
  obtain r s2 tr where rb: "restart_browser (fb_close_res env) (restart_launch_res env) ?s1 = (r, s2, tr)"
    by (cases "restart_browser (fb_close_res env) (restart_launch_res env) ?s1")
  have "fb s2 = (if closed_flag sess then fb sess
        else Some (fst (snd (lazy_init (restart_launch_res env) (FBScrape_init (browser_data_dir sess))))))"
    using restart_browser_fb [of "fb_close_res env" "restart_launch_res env" ?s1] rb by simp
  then show ?thesis
    by (simp add: rechrome_step_def Let_def rb split: outcome.split)
qed







lemma lazy_init_fresh:
  "lazy_init launch (FBScrape_init dir) =
     (case launch of
        Returns pid \<Rightarrow>
          (Returns (), (FBScrape_init dir)\<lparr>did_lazy_init := True, has_browser_user := pid\<rparr>, [FbLaunch])
      | Raises e \<Rightarrow> (Raises e, FBScrape_init dir, [FbLaunch]))"
  by (simp add: lazy_init_def FBScrape_init_def split: outcome.split)

lemma rechrome_step_exact:
  "rechrome_step cfg env sess =
     (if need_restart cfg (scrape_job_counter sess + 1) then
        (if closed_flag sess then
           (sess\<lparr>scrape_job_counter := scrape_job_counter sess + 1\<rparr>,
            [LogInfo ''RE-CHROME'', RestartBrowser, LogWarn ''Session closed (cannot restart)''])
         else
           (sess\<lparr>scrape_job_counter := scrape_job_counter sess + 1,
                 fb := Some (case restart_launch_res env of
                               Returns pid \<Rightarrow>
                                 (FBScrape_init (browser_data_dir sess))
                                   \<lparr>did_lazy_init := True, has_browser_user := pid\<rparr>
                             | Raises e \<Rightarrow> FBScrape_init (browser_data_dir sess))\<rparr>,
            [LogInfo ''RE-CHROME'', RestartBrowser]
            @ (case fb sess of
                 None \<Rightarrow> []
               | Some old \<Rightarrow>
                   (case fb_close_res env of
                      Returns u \<Rightarrow> [FbClose]
                    | Raises e \<Rightarrow> [FbClose, LogWarn e]))
            @ [FbLaunch]
            @ (case restart_launch_res env of
                 Returns pid \<Rightarrow> [LogInfo ''RE-CHROME: opened'']
               | Raises e \<Rightarrow>
                   [LogError e, RecordErrorJson ''UserSession.restart_browser'', LogWarn e])))
      else (sess\<lparr>scrape_job_counter := scrape_job_counter sess + 1\<rparr>, []))"
  by (simp add: rechrome_step_def restart_browser_def lazy_init_fresh Let_def
      split: outcome.split option.split)






















section \<open>Properties of the warm job\<close>

lemma py_round1_near: "\<bar>py_round1 x - x\<bar> \<le> 1 / 20"
proof -
  define y where "y = x * 10"
  define f where "f = \<lfloor>y\<rfloor>"
  have f1: "of_int f \<le> y" and f2: "y < of_int f + 1"
    unfolding f_def by linarith+
  show ?thesis
    using f1 f2 unfolding py_round1_def Let_def y_def [symmetric] f_def [symmetric]
    by (auto simp: y_def field_simps abs_le_iff)
qed

text \<open>
  C6, as amended. The completion time of a warm job is kept on the browser object
  (\<^verbatim>\<open>_sink_last_run\<close>, written when the job has saved its result), not on the session.
  On an open browser object: an attempt made while a completion is recorded and fewer
  than \<^verbatim>\<open>SINK_COOLDOWN_SEC\<close> seconds have passed since it returns the cooldown result,
  whose remaining wait is the cooldown minus the elapsed time rounded to one decimal
  (so within 0.05 of it), does not run the agent and leaves the record unchanged; any
  other attempt never returns a cooldown result; and an attempt that returns success
  has recorded its completion time on an open browser object.
\<close>

theorem warm_cooldown:
  assumes opened: "did_lazy_init f"
  shows "(sink_last_run f \<noteq> 0 \<and> now - sink_last_run f < real_of_int (SINK_COOLDOWN_SEC cfg) \<longrightarrow>
            fst (randomtask cfg env now now_done f)
              = Returns (SinkCooldown (py_round1 (real_of_int (SINK_COOLDOWN_SEC cfg) - (now - sink_last_run f))))
            \<and> \<bar>py_round1 (real_of_int (SINK_COOLDOWN_SEC cfg) - (now - sink_last_run f))
                 - (real_of_int (SINK_COOLDOWN_SEC cfg) - (now - sink_last_run f))\<bar> \<le> 1 / 20
            \<and> AgentRun \<notin> set (snd (snd (randomtask cfg env now now_done f)))
            \<and> sink_last_run (fst (snd (randomtask cfg env now now_done f))) = sink_last_run f)
       \<and> (\<not> (sink_last_run f \<noteq> 0 \<and> now - sink_last_run f < real_of_int (SINK_COOLDOWN_SEC cfg)) \<longrightarrow>
            (\<forall>r. fst (randomtask cfg env now now_done f) \<noteq> Returns (SinkCooldown r)))
       \<and> (fst (randomtask cfg env now now_done f) = Returns SinkOk \<longrightarrow>
            sink_last_run (fst (snd (randomtask cfg env now now_done f))) = now_done
            \<and> did_lazy_init (fst (snd (randomtask cfg env now now_done f))))"
proof -
  have li: "lazy_init (sink_launch_res env) f = (Returns (), f, [])"
    using opened by (simp add: lazy_init_def)
  have a: "sink_last_run f \<noteq> 0 \<and> now - sink_last_run f < real_of_int (SINK_COOLDOWN_SEC cfg) \<Longrightarrow>
            fst (randomtask cfg env now now_done f)
              = Returns (SinkCooldown (py_round1 (real_of_int (SINK_COOLDOWN_SEC cfg) - (now - sink_last_run f))))
            \<and> AgentRun \<notin> set (snd (snd (randomtask cfg env now now_done f)))
            \<and> sink_last_run (fst (snd (randomtask cfg env now now_done f))) = sink_last_run f"
    by (simp add: randomtask_def li sink_body_def sink_cooldown_def Let_def max_def)
  have b: "\<not> (sink_last_run f \<noteq> 0 \<and> now - sink_last_run f < real_of_int (SINK_COOLDOWN_SEC cfg)) \<Longrightarrow>
            (\<forall>r. fst (randomtask cfg env now now_done f) \<noteq> Returns (SinkCooldown r))"
    by (auto simp add: randomtask_def li sink_body_def sink_cooldown_def Let_def split: outcome.split)
  have c: "fst (randomtask cfg env now now_done f) = Returns SinkOk \<Longrightarrow>
            sink_last_run (fst (snd (randomtask cfg env now now_done f))) = now_done
            \<and> did_lazy_init (fst (snd (randomtask cfg env now now_done f)))"
    using opened
    by (auto simp add: randomtask_def li sink_body_def Let_def split: outcome.splits option.splits if_splits)
  show ?thesis
    using a b c py_round1_near [of "real_of_int (SINK_COOLDOWN_SEC cfg) - (now - sink_last_run f)"]
    by blast
qed

theorem warm_cooldown_witness:
  "did_lazy_init ((FBScrape_init ''FDATA/profiles/alice'')\<lparr>did_lazy_init := True, sink_last_run := 100\<rparr>)
   \<and> fst (randomtask
        \<lparr>RECHROME_POLICY = ''never'', RECHROME_EVERY_N = 0, SINK_HITS_BEFORE_TRIGGER = 8,
         SINK_COOLDOWN_SEC = 1800, SINK_IDLE_SEC = 1500\<rparr>
        \<lparr>sink_launch_res = Returns True, pid_found = True, agent_res = Returns ''done'',
         sink_save_res = Returns (), final_pid_found = True\<rparr>
        300 400
        ((FBScrape_init ''FDATA/profiles/alice'')\<lparr>did_lazy_init := True, sink_last_run := 100\<rparr>))
     = Returns (SinkCooldown 1600)"
  using warm_cooldown [of "(FBScrape_init ''FDATA/profiles/alice'')\<lparr>did_lazy_init := True, sink_last_run := 100\<rparr>"
      300
      "\<lparr>RECHROME_POLICY = ''never'', RECHROME_EVERY_N = 0, SINK_HITS_BEFORE_TRIGGER = 8,
         SINK_COOLDOWN_SEC = 1800, SINK_IDLE_SEC = 1500\<rparr>"
      "\<lparr>sink_launch_res = Returns True, pid_found = True, agent_res = Returns ''done'',
         sink_save_res = Returns (), final_pid_found = True\<rparr>" 400]
  by (simp add: FBScrape_init_def py_round1_def)

text \<open>
  C6, as stated, fails across a browser restart: a warm job completes on the session at
  time 100, a scrape job under \<^verbatim>\<open>before_each\<close> replaces the browser object, and a warm
  attempt at time 300, well inside the cooldown of 1800 seconds, runs the agent again.
\<close>

theorem warm_cooldown_lost_on_recycle:
  "(case sink_job
      \<lparr>RECHROME_POLICY = ''before_each'', RECHROME_EVERY_N = 0, SINK_HITS_BEFORE_TRIGGER = 8,
       SINK_COOLDOWN_SEC = 1800, SINK_IDLE_SEC = 1500\<rparr>
      \<lparr>sink_launch_res = Returns True, pid_found = True, agent_res = Returns ''done'',
       sink_save_res = Returns (), final_pid_found = True\<rparr>
      10 100
      ((UserSession_init ''alice'' 0)
         \<lparr>fb := Some ((FBScrape_init ''FDATA/profiles/alice'')\<lparr>did_lazy_init := True\<rparr>)\<rparr>) of
      (r1, s1, tr1) \<Rightarrow>
        (case scrape_posts_job
           \<lparr>RECHROME_POLICY = ''before_each'', RECHROME_EVERY_N = 0, SINK_HITS_BEFORE_TRIGGER = 8,
            SINK_COOLDOWN_SEC = 1800, SINK_IDLE_SEC = 1500\<rparr>
           \<lparr>fb_close_res = Returns (), restart_launch_res = Returns True,
            ensure_launch_res = Returns True, is_logged_in_res = Returns True,
            run_task_res = Returns [], save_json_res = Returns ()\<rparr> s1 of
           (r2, s2, tr2) \<Rightarrow>
             (case sink_job
                \<lparr>RECHROME_POLICY = ''before_each'', RECHROME_EVERY_N = 0,
                 SINK_HITS_BEFORE_TRIGGER = 8, SINK_COOLDOWN_SEC = 1800, SINK_IDLE_SEC = 1500\<rparr>
                \<lparr>sink_launch_res = Returns True, pid_found = True, agent_res = Returns ''done'',
                 sink_save_res = Returns (), final_pid_found = True\<rparr>
                300 400 s2 of
                (r3, s3, tr3) \<Rightarrow>
                  r1 = Returns SinkOk \<and> AgentRun \<in> set tr1
                  \<and> r2 = JobOk []
                  \<and> (300::real) - 100 < 1800
                  \<and> r3 = Returns SinkOk \<and> AgentRun \<in> set tr3)))"
  by (simp add: sink_job_def randomtask_def lazy_init_def sink_body_def sink_cooldown_def
      scrape_posts_job_def rechrome_step_def need_restart_def restart_browser_def ensure_fb_def
      sink_trigger_def UserSession_init_def FBScrape_init_def Let_def)

section \<open>Properties of the registry\<close>

lemma map_of_set_session:
  "map_of (sessions (set_session k v m)) k' = (if k' = k then Some v else map_of (sessions m) k')"
  by (simp add: set_session_def update_conv')

lemma distinct_set_session:
  "distinct (map fst (sessions m)) \<Longrightarrow> distinct (map fst (sessions (set_session k v m)))"
  by (simp add: set_session_def distinct_update)

text \<open>
  C4, as amended. The registry is keyed by the raw user name, not by its safe form.
  For every raw name, \<^verbatim>\<open>get_or_create\<close> returns the live session stored under exactly
  that name and leaves the registry as it is; it creates a session, which is open, only
  when the name has no entry or its entry is closed; afterwards the name maps to the
  session returned, every other name maps to what it mapped to before, and the keys of
  the registry stay pairwise different.
\<close>

theorem get_or_create_by_raw_name:
  "(map_of (sessions m) uname = Some sess \<and> \<not> closed_flag sess \<longrightarrow>
      get_or_create now uname m = (sess, m))
   \<and> (map_of (sessions m) uname = None
        \<or> (\<exists>sess. map_of (sessions m) uname = Some sess \<and> closed_flag sess) \<longrightarrow>
      fst (get_or_create now uname m) = UserSession_init uname now
      \<and> \<not> closed_flag (fst (get_or_create now uname m)))
   \<and> map_of (sessions (snd (get_or_create now uname m))) uname = Some (fst (get_or_create now uname m))
   \<and> (other \<noteq> uname \<longrightarrow>
      map_of (sessions (snd (get_or_create now uname m))) other = map_of (sessions m) other)
   \<and> (distinct (map fst (sessions m)) \<longrightarrow>
      distinct (map fst (sessions (snd (get_or_create now uname m)))))"
  by (auto simp add: get_or_create_def map_of_set_session distinct_set_session UserSession_init_def
      split: option.split)

theorem get_or_create_by_raw_name_witness:
  "get_or_create 5 ''alice'' \<lparr>idle_timeout_sec = 1800, sessions = [(''alice'', UserSession_init ''alice'' 0)]\<rparr>
     = (UserSession_init ''alice'' 0,
        \<lparr>idle_timeout_sec = 1800, sessions = [(''alice'', UserSession_init ''alice'' 0)]\<rparr>)
   \<and> fst (get_or_create 5 ''bob'' \<lparr>idle_timeout_sec = 1800, sessions = [(''alice'', UserSession_init ''alice'' 0)]\<rparr>)
     = UserSession_init ''bob'' 5"
  using get_or_create_by_raw_name [of
      "\<lparr>idle_timeout_sec = 1800, sessions = [(''alice'', UserSession_init ''alice'' 0)]\<rparr>"
      "''alice''" "UserSession_init ''alice'' 0" 5 "''bob''"]
    get_or_create_by_raw_name [of
      "\<lparr>idle_timeout_sec = 1800, sessions = [(''alice'', UserSession_init ''alice'' 0)]\<rparr>"
      "''bob''" "UserSession_init ''alice'' 0" 5 "''alice''"]
  by (simp add: UserSession_init_def)

text \<open>
  C4, as stated, fails: \<^verbatim>\<open>alice@a.com\<close> and \<^verbatim>\<open>alice@b.com\<close> have the same safe
  form, and after one \<^verbatim>\<open>get_or_create\<close> for each the registry holds two different
  live sessions with the same safe name and the same profile directory.
\<close>

theorem same_safe_name_two_sessions:
  "to_safe_name ''alice@a.com'' = to_safe_name ''alice@b.com''
   \<and> (case get_or_create 1 ''alice@a.com'' (SessionManager_init 1800) of
        (s1, m1) \<Rightarrow>
          (case get_or_create 2 ''alice@b.com'' m1 of
             (s2, m2) \<Rightarrow>
               s1 \<noteq> s2
               \<and> map_of (sessions m2) ''alice@a.com'' = Some s1
               \<and> map_of (sessions m2) ''alice@b.com'' = Some s2
               \<and> \<not> closed_flag s1 \<and> \<not> closed_flag s2
               \<and> username_safe s1 = username_safe s2
               \<and> browser_data_dir s1 = browser_data_dir s2))"
  by (simp add: get_or_create_def SessionManager_init_def set_session_def UserSession_init_def
      to_safe_name_def)

section \<open>Properties of the janitor and of the close request\<close>

lemma close_in_two_stretches:
  "\<not> closed_flag sess \<Longrightarrow> fb sess \<noteq> None \<Longrightarrow>
   close fb_close sess
     = (Returns (), fst (janitor_close_resume fb_close uname sess m),
        FbClose # snd (snd (janitor_close_resume fb_close uname sess m)))"
  by (auto simp add: close_def janitor_close_resume_def Let_def split: outcome.split)

lemma tt_close_in_two_stretches:
  "\<not> tt_closed sess \<Longrightarrow>
   fst (snd (tt_close driver_close sess))
     = fst (tt_janitor_resume driver_close uname (sess\<lparr>stop_flag_private := True\<rparr>) m)"
  by (simp add: tt_close_def tt_janitor_resume_def cleanup_def Let_def)

lemma janitor_skips_held_gate:
  "map_of (sessions m) uname = Some sess \<Longrightarrow> lock sess \<Longrightarrow> janitor_close_begin uname m = Skip"
  by (simp add: janitor_close_begin_def)

lemma tt_janitor_skips_held_gate:
  "map_of (tt_sessions m) uname = Some sess \<Longrightarrow> tt_lock sess \<Longrightarrow> tt_janitor_begin now uname m = Skip"
  by (simp add: tt_janitor_begin_def)

text \<open>
  C2. The test of the janitor and the marking and removal it guards are not one step: the
  janitor waits inside \<^verbatim>\<open>sess.close()\<close> between them, and a job that asks for the
  session during that wait gets the same object (it is neither closed nor removed yet)
  with its lock free. A session whose lock is held at the test is skipped (the two lemmas
  above), but the run below ends with a session that is closed, without browser and out of
  the registry while a job holds its lock.

  In modify\_v1.py: a scrape job for \<open>alice\<close> runs from time 0 to 2 and leaves the browser
  open; at time 5000, with a timeout of 1800, the first loop of the janitor lists
  \<open>alice\<close>, the second finds the session open and unlocked and waits for the browser to
  close; at 5001 a job is admitted by \<^verbatim>\<open>run_for_user\<close> and takes the lock; when the
  browser has closed, the janitor clears \<^verbatim>\<open>fb\<close>, sets \<^verbatim>\<open>closed\<close> and removes the key.
  In tiktok\_scrap\_api.py: a session created at time 0; at time 5000 the janitor finds it
  unlocked and idle, sets the stop flag and sleeps; a job is admitted and takes the lock;
  after the sleep the janitor cleans up, sets \<^verbatim>\<open>closed\<close> and removes the key.
\<close>

theorem janitor_closes_under_job:
  "(let cfg = \<lparr>RECHROME_POLICY = ''never'', RECHROME_EVERY_N = 0,
               SINK_HITS_BEFORE_TRIGGER = 8, SINK_COOLDOWN_SEC = 1800, SINK_IDLE_SEC = 1500\<rparr>;
        env = \<lparr>fb_close_res = Returns (), restart_launch_res = Returns True,
               ensure_launch_res = Returns True, is_logged_in_res = Returns True,
               run_task_res = Returns [], save_json_res = Returns ()\<rparr>
    in case run_for_user 0 1 2 ''alice'' (scrape_posts_job cfg env) (SessionManager_init 1800) of
         None \<Rightarrow> False
       | Some (r, m1, tr) \<Rightarrow>
           fst (janitor_scan cfg (idle_timeout_sec m1) 5000 (sessions m1)) = [''alice'']
           \<and> janitor_close_begin ''alice'' m1
               = Await m1 [LogInfo ''[Janitor] Close idle session'', FbClose]
           \<and> (case enter_user 5001 5001 ''alice'' m1 of
                 None \<Rightarrow> False
               | Some (sess, m2) \<Rightarrow>
                   lock sess \<and> \<not> closed_flag sess \<and> fb sess \<noteq> None
                   \<and> map_of (sessions m2) ''alice'' = Some sess
                   \<and> (case janitor_close_resume (Returns ()) ''alice'' sess m2 of
                         (sess', m3, tr') \<Rightarrow>
                           lock sess' \<and> closed_flag sess' \<and> fb sess' = None
                           \<and> map_of (sessions m3) ''alice'' = None)))
   \<and> (case tt_get_or_create 0 ''alice'' (TTSessionManager_init 1800) of
         (s0, tm1) \<Rightarrow>
           (case tt_janitor_begin 5000 ''alice'' tm1 of
              Skip \<Rightarrow> False
            | Done tm tr \<Rightarrow> False
            | Await tm2 tr \<Rightarrow>
                (case tt_enter_user 5000 5000 ''alice'' tm2 of
                   None \<Rightarrow> False
                 | Some (sess, tm3) \<Rightarrow>
                     tt_lock sess \<and> \<not> tt_closed sess
                     \<and> map_of (tt_sessions tm3) ''alice'' = Some sess
                     \<and> (case tt_janitor_resume (Returns ()) ''alice'' sess tm3 of
                           (sess', tm4, tr') \<Rightarrow>
                             tt_lock sess' \<and> tt_closed sess' \<and> scraper sess' = None
                             \<and> map_of (tt_sessions tm4) ''alice'' = None))))"
  by (simp add: run_for_user_def enter_user_def exit_user_def get_or_create_def set_session_def
      pop_session_def SessionManager_init_def UserSession_init_def touch_def scrape_posts_job_def
      rechrome_step_def need_restart_def ensure_fb_def lazy_init_def FBScrape_init_def
      sink_trigger_def profile_dir_def to_safe_name_def Let_def
      janitor_close_begin_def janitor_close_resume_def
      TTSessionManager_init_def tt_get_or_create_def TTUserSession_init_def tt_janitor_begin_def
      tt_enter_user_def tt_touch_def tt_janitor_resume_def cleanup_def)

text \<open>
  C9. A close request (\<^verbatim>\<open>DELETE /sessions/{username_full}\<close>, which has no force
  option) for a name whose session has its lock held is answered with the error status
  400; the registry and the session are left exactly as they were, and nothing is
  logged, closed or scheduled.
\<close>

theorem close_session_busy_rejected:
  "map_of (sessions m) uname = Some sess \<and> lock sess \<longrightarrow>
     close_session fb_close uname m = (HttpError 400, m, [])"
  by (simp add: close_session_def)

theorem close_session_busy_rejected_witness:
  "close_session (Returns ()) ''alice''
     \<lparr>idle_timeout_sec = 1800,
      sessions = [(''alice'', (UserSession_init ''alice'' 0)\<lparr>lock := True\<rparr>)]\<rparr>
   = (HttpError 400,
      \<lparr>idle_timeout_sec = 1800,
       sessions = [(''alice'', (UserSession_init ''alice'' 0)\<lparr>lock := True\<rparr>)]\<rparr>, [])"
  using close_session_busy_rejected [of
      "\<lparr>idle_timeout_sec = 1800,
        sessions = [(''alice'', (UserSession_init ''alice'' 0)\<lparr>lock := True\<rparr>)]\<rparr>"
      "''alice''" "(UserSession_init ''alice'' 0)\<lparr>lock := True\<rparr>" "Returns ()"]
  by simp

section \<open>Properties of concurrent admissions\<close>

lemma admission_inv_init: "admission_inv world_init"
  by (simp add: admission_inv_def refs_ok_def none_closed_def tasks_registered_def
      holders_locked_def one_holder_def world_init_def)

lemma get_or_create_ref_cases:
  assumes "refs_ok w" "none_closed w"
  shows "(\<exists>r. map_of (registry w) uname = Some r \<and> get_or_create_ref now uname w = (r, w))
       \<or> (map_of (registry w) uname = None \<and> get_or_create_ref now uname w = create_ref now uname w)"
  using assms
  by (auto simp add: get_or_create_ref_def refs_ok_def none_closed_def split: option.split)

lemma admit_existing:
  assumes inv: "admission_inv w" and reg: "map_of (registry w) uname = Some r"
    and free: "tasks w tid = None"
  shows "admission_inv (w\<lparr>tasks := (tasks w)(tid \<mapsto>
            \<lparr>task_uname = uname, task_path = p, task_ref = r, task_pc = Waiting\<rparr>)\<rparr>)"
  using inv reg free
  unfolding admission_inv_def refs_ok_def none_closed_def tasks_registered_def
    holders_locked_def one_holder_def
  by (auto split: if_splits)

lemma admit_created:
  assumes inv: "admission_inv w" and reg: "map_of (registry w) uname = None"
    and free: "tasks w tid = None"
  shows "admission_inv ((snd (create_ref now uname w))\<lparr>tasks := (tasks w)(tid \<mapsto>
            \<lparr>task_uname = uname, task_path = p, task_ref = fst (create_ref now uname w),
             task_pc = Waiting\<rparr>)\<rparr>)"
proof -
  let ?w' = "(snd (create_ref now uname w))\<lparr>tasks := (tasks w)(tid \<mapsto>
            \<lparr>task_uname = uname, task_path = p, task_ref = length (objects w),
             task_pc = Waiting\<rparr>)\<rparr>"
  have ro: "refs_ok w" and nc: "none_closed w" and tr: "tasks_registered w"
    and hl: "holders_locked w" and oh: "one_holder w"
    using inv by (simp_all add: admission_inv_def)
  have reg': "\<And>k. map_of (registry ?w') k = (if k = uname then Some (length (objects w)) else map_of (registry w) k)"
    by (simp add: create_ref_def update_conv')
  have obj': "objects ?w' = objects w @ [UserSession_init uname now]"
    by (simp add: create_ref_def)
  have other: "\<And>t' t. tasks w t' = Some t \<Longrightarrow> task_uname t \<noteq> uname \<and> task_ref t < length (objects w)"
    using tr ro reg unfolding tasks_registered_def refs_ok_def by fastforce
  have 1: "refs_ok ?w'"
    using ro unfolding refs_ok_def reg' obj' by (auto simp add: less_Suc_eq)
  have 2: "none_closed ?w'"
    using nc unfolding none_closed_def obj'
    by (auto simp add: nth_append UserSession_init_def less_Suc_eq)
  have 3: "tasks_registered ?w'"
    using tr other unfolding tasks_registered_def reg' by (auto split: if_splits)
  have 4: "holders_locked ?w'"
    using hl other unfolding holders_locked_def obj'
    by (auto simp add: nth_append split: if_splits)
  have 5: "one_holder ?w'"
    using oh unfolding one_holder_def by (auto split: if_splits)
  show ?thesis
    using 1 2 3 4 5 by (simp add: admission_inv_def create_ref_def)
qed

lemma step_admit_inv:
  assumes inv: "admission_inv w" and st: "step (Admit tid p uname now) w = Some w'"
  shows "admission_inv w'"
proof -
  have free: "tasks w tid = None"
    using st by (simp split: option.splits)
  have ro: "refs_ok w" and nc: "none_closed w"
    using inv by (simp_all add: admission_inv_def)
  from get_or_create_ref_cases [OF ro nc, of uname now]
  show ?thesis
  proof
    assume "\<exists>r. map_of (registry w) uname = Some r \<and> get_or_create_ref now uname w = (r, w)"
    then obtain r where r: "map_of (registry w) uname = Some r" "get_or_create_ref now uname w = (r, w)"
      by blast
    have "w' = w\<lparr>tasks := (tasks w)(tid \<mapsto>
            \<lparr>task_uname = uname, task_path = p, task_ref = r, task_pc = Waiting\<rparr>)\<rparr>"
      using st free r by simp
    then show ?thesis using admit_existing [OF inv r(1) free] by simp
  next
    assume c: "map_of (registry w) uname = None \<and> get_or_create_ref now uname w = create_ref now uname w"
    have tk: "tasks (snd (create_ref now uname w)) = tasks w"
      by (simp add: create_ref_def)
    have "w' = (snd (create_ref now uname w))\<lparr>tasks := (tasks w)(tid \<mapsto>
            \<lparr>task_uname = uname, task_path = p, task_ref = fst (create_ref now uname w),
             task_pc = Waiting\<rparr>)\<rparr>"
      using st free c tk by (simp split: prod.splits)
    then show ?thesis
      using admit_created [OF inv _ free, where uname = uname and now = now and p = p] c by simp
  qed
qed

lemma step_acquire_inv:
  assumes inv: "admission_inv w" and st: "step (Acquire tid now) w = Some w'"
  shows "admission_inv w'"
proof -
  obtain t where t: "tasks w tid = Some t" "task_pc t = Waiting" "task_ref t < length (objects w)"
    "\<not> lock (objects w ! task_ref t)"
    using st by (auto split: option.splits if_splits)
  define s' where "s' = (if task_path t = UserPath then touch now ((objects w ! task_ref t)\<lparr>lock := True\<rparr>)
                        else (objects w ! task_ref t)\<lparr>lock := True\<rparr>)"
  have w': "w' = w\<lparr>objects := (objects w)[task_ref t := s'],
                  tasks := (tasks w)(tid \<mapsto> t\<lparr>task_pc := Holding\<rparr>)\<rparr>"
    using st t by (simp add: s'_def Let_def)
  have s'l: "lock s'" and s'c: "closed_flag s' = closed_flag (objects w ! task_ref t)"
    by (simp_all add: s'_def touch_def)
  have ro: "refs_ok w" and nc: "none_closed w" and tr: "tasks_registered w"
    and hl: "holders_locked w" and oh: "one_holder w"
    using inv by (simp_all add: admission_inv_def)
  have noholder: "\<And>t2 b. tasks w t2 = Some b \<Longrightarrow> task_pc b = Holding \<Longrightarrow> task_ref b \<noteq> task_ref t"
    using hl t(4) unfolding holders_locked_def by metis
  have 1: "refs_ok w'" using ro unfolding refs_ok_def w' by simp
  have 2: "none_closed w'"
    unfolding none_closed_def
  proof (intro allI impI)
    fix r assume "r < length (objects w')"
    then have r: "r < length (objects w)" by (simp add: w')
    show "\<not> closed_flag (objects w' ! r)"
    proof (cases "r = task_ref t")
      case True
      then have "objects w' ! r = s'" using r by (simp add: w')
      then show ?thesis using s'c nc r True by (simp add: none_closed_def)
    next
      case False
      then have "objects w' ! r = objects w ! r" by (simp add: w')
      then show ?thesis using nc r by (simp add: none_closed_def)
    qed
  qed
  have 3: "tasks_registered w'"
    using tr t(1) unfolding tasks_registered_def w' by (auto split: if_splits)
  have 4: "holders_locked w'"
    unfolding holders_locked_def
  proof (intro allI impI)
    fix t2 b assume b: "tasks w' t2 = Some b" "task_pc b = Holding"
    show "lock (objects w' ! task_ref b)"
    proof (cases "t2 = tid")
      case True
      then have "task_ref b = task_ref t" using b(1) by (auto simp add: w')
      then show ?thesis using s'l t(3) by (simp add: w')
    next
      case False
      then have old: "tasks w t2 = Some b" using b(1) by (simp add: w')
      then have "task_ref b \<noteq> task_ref t" using noholder b(2) by blast
      then have "objects w' ! task_ref b = objects w ! task_ref b" by (simp add: w')
      then show ?thesis using hl old b(2) by (simp add: holders_locked_def)
    qed
  qed
  have 5: "one_holder w'"
    unfolding one_holder_def
  proof (intro allI impI)
    fix t1 t2 a b
    assume h: "tasks w' t1 = Some a" "tasks w' t2 = Some b" "task_pc a = Holding"
      "task_pc b = Holding" "task_ref a = task_ref b"
    show "t1 = t2"
    proof (cases "t1 = tid")
      case True
      then have ra: "task_ref a = task_ref t" using h(1) by (auto simp add: w')
      show ?thesis
      proof (rule ccontr)
        assume ne: "t1 \<noteq> t2"
        then have "tasks w t2 = Some b" using h(2) True by (simp add: w')
        then have "task_ref b \<noteq> task_ref t" using noholder h(4) by blast
        then show False using ra h(5) by simp
      qed
    next
      case False
      then have olda: "tasks w t1 = Some a" using h(1) by (simp add: w')
      show ?thesis
      proof (cases "t2 = tid")
        case True
        then have "task_ref b = task_ref t" using h(2) by (auto simp add: w')
        moreover have "task_ref a \<noteq> task_ref t" using noholder olda h(3) by blast
        ultimately show ?thesis using h(5) by simp
      next
        case False
        then have "tasks w t2 = Some b" using h(2) by (simp add: w')
        then show ?thesis using oh olda h(3) h(4) h(5) unfolding one_holder_def by blast
      qed
    qed
  qed
  show ?thesis using 1 2 3 4 5 by (simp add: admission_inv_def)
qed

lemma step_release_inv:
  assumes inv: "admission_inv w" and st: "step (Release tid now) w = Some w'"
  shows "admission_inv w'"
proof -
  obtain t where t: "tasks w tid = Some t" "task_pc t = Holding" "task_ref t < length (objects w)"
    using st by (auto split: option.splits if_splits)
  define s' where "s' = (if task_path t = UserPath then touch now (objects w ! task_ref t)
                        else objects w ! task_ref t)\<lparr>lock := False\<rparr>"
  have w': "w' = w\<lparr>objects := (objects w)[task_ref t := s'],
                  tasks := (tasks w)(tid := None)\<rparr>"
    using st t by (simp add: s'_def Let_def)
  have s'c: "closed_flag s' = closed_flag (objects w ! task_ref t)"
    by (simp add: s'_def touch_def)
  have ro: "refs_ok w" and nc: "none_closed w" and tr: "tasks_registered w"
    and hl: "holders_locked w" and oh: "one_holder w"
    using inv by (simp_all add: admission_inv_def)
  have others: "\<And>t2 b. tasks w t2 = Some b \<Longrightarrow> task_pc b = Holding \<Longrightarrow> t2 \<noteq> tid
       \<Longrightarrow> task_ref b \<noteq> task_ref t"
    using oh t(1) t(2) unfolding one_holder_def by metis
  have 1: "refs_ok w'" using ro unfolding refs_ok_def w' by simp
  have 2: "none_closed w'"
    unfolding none_closed_def
  proof (intro allI impI)
    fix r assume "r < length (objects w')"
    then have r: "r < length (objects w)" by (simp add: w')
    show "\<not> closed_flag (objects w' ! r)"
    proof (cases "r = task_ref t")
      case True
      then have "objects w' ! r = s'" using r by (simp add: w')
      then show ?thesis using s'c nc r True by (simp add: none_closed_def)
    next
      case False
      then have "objects w' ! r = objects w ! r" by (simp add: w')
      then show ?thesis using nc r by (simp add: none_closed_def)
    qed
  qed
  have 3: "tasks_registered w'"
    using tr unfolding tasks_registered_def w' by (auto split: if_splits)
  have 4: "holders_locked w'"
    unfolding holders_locked_def
  proof (intro allI impI)
    fix t2 b assume b: "tasks w' t2 = Some b" "task_pc b = Holding"
    then have ne: "t2 \<noteq> tid" by (auto simp add: w')
    then have old: "tasks w t2 = Some b" using b(1) by (simp add: w')
    then have "task_ref b \<noteq> task_ref t" using others b(2) ne by blast
    then have "objects w' ! task_ref b = objects w ! task_ref b" by (simp add: w')
    then show "lock (objects w' ! task_ref b)"
      using hl old b(2) by (simp add: holders_locked_def)
  qed
  have 5: "one_holder w'"
    unfolding one_holder_def
  proof (intro allI impI)
    fix t1 t2 a b
    assume h: "tasks w' t1 = Some a" "tasks w' t2 = Some b" "task_pc a = Holding"
      "task_pc b = Holding" "task_ref a = task_ref b"
    have "t1 \<noteq> tid" "t2 \<noteq> tid" using h(1) h(2) by (auto simp add: w')
    then have "tasks w t1 = Some a" "tasks w t2 = Some b" using h(1) h(2) by (simp_all add: w')
    then show "t1 = t2" using oh h(3) h(4) h(5) unfolding one_holder_def by blast
  qed
  show ?thesis using 1 2 3 4 5 by (simp add: admission_inv_def)
qed

lemma step_inv:
  "admission_inv w \<Longrightarrow> \<not> closes e \<Longrightarrow> step e w = Some w' \<Longrightarrow> admission_inv w'"
  by (cases e) (auto simp del: step.simps intro: step_admit_inv step_acquire_inv step_release_inv)

lemma run_inv:
  "admission_inv w \<Longrightarrow> \<not> list_ex closes evs \<Longrightarrow> run evs w = Some w' \<Longrightarrow> admission_inv w'"
proof (induction evs arbitrary: w)
  case Nil
  then show ?case by simp
next
  case (Cons e evs)
  from Cons.prems(3) obtain w1 where w1: "step e w = Some w1" "run evs w1 = Some w'"
    by (auto simp del: step.simps split: option.splits)
  have "admission_inv w1"
    using step_inv [OF Cons.prems(1) _ w1(1)] Cons.prems(2) by simp
  then show ?case
    using Cons.IH [OF _ _ w1(2)] Cons.prems(2) by simp
qed

text \<open>
  C1, as amended. In every state reached from the empty manager by admissions,
  acquisitions and releases, on either path, with no event that closes a session: any two
  tasks admitted for the same user name hold a reference to the same session object, so
  they contend for the same lock, and if both hold the lock they are the same task.
  Tasks for different user names are not excluded from each other: a user-path job for
  one name and a system-path job for another can hold their locks at the same time.
\<close>

theorem one_job_per_identity:
  "(run evs world_init = Some w \<and> \<not> list_ex closes evs \<longrightarrow>
      (\<forall>t1 t2 a b.
          tasks w t1 = Some a \<and> tasks w t2 = Some b \<and> task_uname a = task_uname b \<longrightarrow>
            task_ref a = task_ref b
            \<and> (task_pc a = Holding \<and> task_pc b = Holding \<longrightarrow> t1 = t2)))
   \<and> (case run [Admit 1 UserPath ''alice'' 1, Acquire 1 2,
                 Admit 2 SysPath ''bob'' 3, Acquire 2 4] world_init of
         None \<Rightarrow> False
       | Some w' \<Rightarrow>
           map_option task_pc (tasks w' 1) = Some Holding
           \<and> map_option task_pc (tasks w' 2) = Some Holding)"
proof -
  have safety: "run evs world_init = Some w \<and> \<not> list_ex closes evs \<longrightarrow>
      (\<forall>t1 t2 a b.
          tasks w t1 = Some a \<and> tasks w t2 = Some b \<and> task_uname a = task_uname b \<longrightarrow>
            task_ref a = task_ref b
            \<and> (task_pc a = Holding \<and> task_pc b = Holding \<longrightarrow> t1 = t2))"
  proof (intro impI allI, elim conjE)
    fix t1 t2 a b
    assume r: "run evs world_init = Some w" and nc: "\<not> list_ex closes evs"
      and a: "tasks w t1 = Some a" and b: "tasks w t2 = Some b"
      and u: "task_uname a = task_uname b"
    have inv: "admission_inv w"
      using run_inv [OF admission_inv_init nc r] .
    have "map_of (registry w) (task_uname a) = Some (task_ref a)"
      "map_of (registry w) (task_uname b) = Some (task_ref b)"
      using inv a b unfolding admission_inv_def tasks_registered_def by blast+
    then have same: "task_ref a = task_ref b" using u by simp
    have "task_pc a = Holding \<and> task_pc b = Holding \<longrightarrow> t1 = t2"
      using inv a b same unfolding admission_inv_def one_holder_def by blast
    then show "task_ref a = task_ref b \<and> (task_pc a = Holding \<and> task_pc b = Holding \<longrightarrow> t1 = t2)"
      using same by simp
  qed
  have par: "case run [Admit 1 UserPath ''alice'' 1, Acquire 1 2,
                 Admit 2 SysPath ''bob'' 3, Acquire 2 4] world_init of
         None \<Rightarrow> False
       | Some w' \<Rightarrow>
           map_option task_pc (tasks w' 1) = Some Holding
           \<and> map_option task_pc (tasks w' 2) = Some Holding"
    by (simp add: world_init_def get_or_create_ref_def create_ref_def UserSession_init_def
        touch_def Let_def)
  show ?thesis using safety par by (rule conjI)
qed

theorem one_job_per_identity_witness:
  "\<not> list_ex closes [Admit 1 UserPath ''bob'' 1, Acquire 1 2, Admit 2 SysPath ''bob'' 3]
   \<and> (case run [Admit 1 UserPath ''bob'' 1, Acquire 1 2, Admit 2 SysPath ''bob'' 3] world_init of
         None \<Rightarrow> False
       | Some w \<Rightarrow>
           map_option task_uname (tasks w 1) = Some ''bob''
           \<and> map_option task_uname (tasks w 2) = Some ''bob''
           \<and> map_option task_pc (tasks w 1) = Some Holding
           \<and> map_option task_ref (tasks w 1) = map_option task_ref (tasks w 2)
           \<and> step (Acquire 2 4) w = None)"
proof -
  let ?evs = "[Admit 1 UserPath ''bob'' 1, Acquire 1 2, Admit 2 SysPath ''bob'' 3]"
  have n: "\<not> list_ex closes ?evs" by simp
  have c: "case run ?evs world_init of
         None \<Rightarrow> False
       | Some w \<Rightarrow>
           (\<exists>a b. tasks w 1 = Some a \<and> tasks w 2 = Some b
                  \<and> task_uname a = ''bob'' \<and> task_uname b = ''bob'' \<and> task_pc a = Holding)
           \<and> step (Acquire 2 4) w = None"
    by (simp add: world_init_def get_or_create_ref_def create_ref_def UserSession_init_def
        touch_def Let_def)
  obtain w where w: "run ?evs world_init = Some w"
    using c by (cases "run ?evs world_init") (simp_all only: option.case)
  obtain a b where ab: "tasks w 1 = Some a" "tasks w 2 = Some b"
      "task_uname a = ''bob''" "task_uname b = ''bob''" "task_pc a = Holding"
    and blocked: "step (Acquire 2 4) w = None"
    using c unfolding w option.case by blast
  have every: "\<forall>t1 t2 a b.
          tasks w t1 = Some a \<and> tasks w t2 = Some b \<and> task_uname a = task_uname b \<longrightarrow>
            task_ref a = task_ref b
            \<and> (task_pc a = Holding \<and> task_pc b = Holding \<longrightarrow> t1 = t2)"
    using one_job_per_identity [of ?evs w, THEN conjunct1, THEN mp, OF conjI [OF w n]] .
  have "task_ref a = task_ref b"
    using every [THEN spec, of 1, THEN spec, of 2, THEN spec, of a, THEN spec, of b] ab by simp
  then have "map_option task_uname (tasks w 1) = Some ''bob''
           \<and> map_option task_uname (tasks w 2) = Some ''bob''
           \<and> map_option task_pc (tasks w 1) = Some Holding
           \<and> map_option task_ref (tasks w 1) = map_option task_ref (tasks w 2)
           \<and> step (Acquire 2 4) w = None"
    using ab blocked by simp
  then show ?thesis
    using n unfolding w option.case by (rule conjI [rotated])
qed

text \<open>
  C1, as stated, fails when a session is closed under a running job, which
  \<^verbatim>\<open>delete_profile\<close> does when asked to force: the job of task 1 holds the lock of the
  session of \<^verbatim>\<open>bob\<close>, the forced deletion closes that session and removes it from the
  registry, and task 2, admitted for \<^verbatim>\<open>bob\<close>, gets a new session with a lock of its
  own; both jobs then run at the same time.
\<close>

theorem forced_delete_breaks_exclusion:
  "(case run [Admit 1 UserPath ''bob'' 1, Acquire 1 2,
              DeleteProfile ''bob'' True (Returns ()),
              Admit 2 UserPath ''bob'' 3, Acquire 2 4] world_init of
      None \<Rightarrow> False
    | Some w \<Rightarrow>
        map_option task_uname (tasks w 1) = Some ''bob''
        \<and> map_option task_uname (tasks w 2) = Some ''bob''
        \<and> map_option task_pc (tasks w 1) = Some Holding
        \<and> map_option task_pc (tasks w 2) = Some Holding
        \<and> map_option task_ref (tasks w 1) = Some 0
        \<and> map_option task_ref (tasks w 2) = Some 1)"
  by (simp add: world_init_def get_or_create_ref_def create_ref_def delete_profile_ref_def
      UserSession_init_def touch_def close_def to_safe_name_def Let_def)

section \<open>Properties of the admission layer\<close>

text \<open>
  C7, as amended. When the lock of the user's session is free, \<^verbatim>\<open>run_for_user\<close>
  hands the job the session with the lock taken and \<^verbatim>\<open>last_used\<close> set to the clock at
  acquisition, returns what the job returns, and leaves the session in the registry as
  the job left it but with \<^verbatim>\<open>last_used\<close> set to the clock at release and the lock
  free. \<^verbatim>\<open>run_for_sys\<close> takes and frees the same lock and returns what the job returns,
  but changes \<^verbatim>\<open>last_used\<close> neither at acquisition nor at release.
\<close>

theorem user_path_touches:
  "(\<not> lock (fst (get_or_create now_create uname m)) \<longrightarrow>
      (\<exists>sess m1.
         enter_user now_create now_acq uname m = Some (sess, m1)
         \<and> sess = (fst (get_or_create now_create uname m))\<lparr>lock := True, last_used := now_acq\<rparr>
         \<and> map_of (sessions m1) uname = Some sess
         \<and> run_for_user now_create now_acq now_rel uname job m
             = Some (fst (job sess), exit_user now_rel uname (fst (snd (job sess))) m1, snd (snd (job sess)))
         \<and> map_of (sessions (exit_user now_rel uname (fst (snd (job sess))) m1)) uname
             = Some ((fst (snd (job sess)))\<lparr>last_used := now_rel, lock := False\<rparr>)))
   \<and> (\<not> lock (fst (get_or_create now_create uname m)) \<longrightarrow>
      (\<exists>sess m1.
         enter_sys now_create uname m = Some (sess, m1)
         \<and> sess = (fst (get_or_create now_create uname m))\<lparr>lock := True\<rparr>
         \<and> map_of (sessions m1) uname = Some sess
         \<and> run_for_sys now_create uname job m
             = Some (fst (job sess), exit_sys uname (fst (snd (job sess))) m1, snd (snd (job sess)))
         \<and> map_of (sessions (exit_sys uname (fst (snd (job sess))) m1)) uname
             = Some ((fst (snd (job sess)))\<lparr>lock := False\<rparr>)))"
proof -
  obtain s0 m0 where g: "get_or_create now_create uname m = (s0, m0)"
    by (cases "get_or_create now_create uname m")
  have u: "\<not> lock s0 \<longrightarrow>
      (\<exists>sess m1.
         enter_user now_create now_acq uname m = Some (sess, m1)
         \<and> sess = s0\<lparr>lock := True, last_used := now_acq\<rparr>
         \<and> map_of (sessions m1) uname = Some sess
         \<and> run_for_user now_create now_acq now_rel uname job m
             = Some (fst (job sess), exit_user now_rel uname (fst (snd (job sess))) m1, snd (snd (job sess)))
         \<and> map_of (sessions (exit_user now_rel uname (fst (snd (job sess))) m1)) uname
             = Some ((fst (snd (job sess)))\<lparr>last_used := now_rel, lock := False\<rparr>))"
    by (simp add: enter_user_def run_for_user_def exit_user_def g Let_def touch_def
        map_of_set_session split: prod.split)
  have v: "\<not> lock s0 \<longrightarrow>
      (\<exists>sess m1.
         enter_sys now_create uname m = Some (sess, m1)
         \<and> sess = s0\<lparr>lock := True\<rparr>
         \<and> map_of (sessions m1) uname = Some sess
         \<and> run_for_sys now_create uname job m
             = Some (fst (job sess), exit_sys uname (fst (snd (job sess))) m1, snd (snd (job sess)))
         \<and> map_of (sessions (exit_sys uname (fst (snd (job sess))) m1)) uname
             = Some ((fst (snd (job sess)))\<lparr>lock := False\<rparr>))"
    by (simp add: enter_sys_def run_for_sys_def exit_sys_def g Let_def
        map_of_set_session split: prod.split)
  show ?thesis using u v by (simp add: g)
qed

theorem user_path_touches_witness:
  "\<not> lock (fst (get_or_create 100 ''alice''
        \<lparr>idle_timeout_sec = 1800, sessions = [(''alice'', UserSession_init ''alice'' 0)]\<rparr>))
   \<and> (case run_for_user 100 101 200 ''alice'' (\<lambda>s. (last_used s, s, []))
           \<lparr>idle_timeout_sec = 1800, sessions = [(''alice'', UserSession_init ''alice'' 0)]\<rparr> of
        None \<Rightarrow> False
      | Some (seen, m', tr) \<Rightarrow>
          seen = 101 \<and> map_of (sessions m') ''alice'' = Some ((UserSession_init ''alice'' 0)\<lparr>last_used := 200\<rparr>))"
  using user_path_touches [where now_create = 100 and now_acq = 101 and now_rel = 200
      and uname = "''alice''" and job = "\<lambda>s. (last_used s, s, [])"
      and m = "\<lparr>idle_timeout_sec = 1800, sessions = [(''alice'', UserSession_init ''alice'' 0)]\<rparr>"]
  by (auto simp add: get_or_create_def UserSession_init_def)

text \<open>
  C7, as stated, fails on the system path: a job run through \<^verbatim>\<open>run_for_sys\<close> at clock
  100 on a session last used at clock 0 sees \<^verbatim>\<open>last_used = 0\<close>, and the session is left
  with \<^verbatim>\<open>last_used = 0\<close>.
\<close>

theorem sys_path_does_not_touch:
  "(case run_for_sys 100 ''alice'' (\<lambda>s. (last_used s, s, []))
           \<lparr>idle_timeout_sec = 1800, sessions = [(''alice'', UserSession_init ''alice'' 0)]\<rparr> of
        None \<Rightarrow> False
      | Some (seen, m', tr) \<Rightarrow>
          seen = 0 \<and> map_of (sessions m') ''alice'' = Some (UserSession_init ''alice'' 0))"
  by (simp add: run_for_sys_def enter_sys_def exit_sys_def get_or_create_def set_session_def
      UserSession_init_def Let_def)

section \<open>Properties of the webhook submission\<close>

lemma get_or_create_live:
  "\<not> closed_flag (fst (get_or_create now uname m))
   \<and> map_of (sessions (snd (get_or_create now uname m))) uname = Some (fst (get_or_create now uname m))"
  by (simp add: get_or_create_def map_of_set_session UserSession_init_def split: option.split)

lemma get_or_create_again:
  "map_of (sessions m) uname = Some sess \<Longrightarrow> \<not> closed_flag sess \<Longrightarrow>
   get_or_create now uname m = (sess, m)"
  by (simp add: get_or_create_def)

lemma get_or_create_twice:
  "get_or_create now' uname (snd (get_or_create now uname m)) = get_or_create now uname m"
  using get_or_create_live [of now uname m]
    get_or_create_again [of "snd (get_or_create now uname m)" uname "fst (get_or_create now uname m)" now']
  by simp

lemma scrape_posts_webhook_accepted:
  assumes "uname \<noteq> []" "has_profile" "webhook_url \<noteq> []"
  shows "scrape_posts_webhook has_profile now uname webhook_url task_id m =
     (let sess = fst (get_or_create now uname m);
          position = int (webhook_queue_len sess) + (if lock sess then 1 else 0) + 1
      in (WebhookAccepted (if position > 1 then ''queued'' else ''running'') position,
          set_session uname (sess\<lparr>webhook_queue_len := webhook_queue_len sess + 1\<rparr>)
            (snd (get_or_create now uname m)),
          [CreateWebhookTask task_id]))"
proof -
  obtain s m1 where g: "get_or_create now uname m = (s, m1)" by (cases "get_or_create now uname m")
  have "get_or_create now uname m1 = (s, m1)"
    using get_or_create_twice [of now uname now m] g by simp
  then show ?thesis
    using assms by (simp add: scrape_posts_webhook_def g Let_def)
qed

lemma rechrome_step_keeps:
  "closed_flag (fst (rechrome_step cfg env sess)) = closed_flag sess
   \<and> lock (fst (rechrome_step cfg env sess)) = lock sess
   \<and> webhook_queue_len (fst (rechrome_step cfg env sess)) = webhook_queue_len sess"
  by (simp add: rechrome_step_exact)

lemma ensure_fb_keeps:
  "closed_flag (fst (snd (ensure_fb l sess))) = closed_flag sess
   \<and> lock (fst (snd (ensure_fb l sess))) = lock sess
   \<and> webhook_queue_len (fst (snd (ensure_fb l sess))) = webhook_queue_len sess"
  by (simp add: ensure_fb_def lazy_init_fresh split: outcome.split option.split)

lemma sink_trigger_keeps:
  "closed_flag (fst (sink_trigger cfg sess)) = closed_flag sess
   \<and> lock (fst (sink_trigger cfg sess)) = lock sess
   \<and> webhook_queue_len (fst (sink_trigger cfg sess)) = webhook_queue_len sess"
  by (simp add: sink_trigger_def Let_def)

lemma webhook_bg_job_keeps:
  "closed_flag (fst (snd (webhook_bg_job cfg env transport url tid sess))) = closed_flag sess
   \<and> lock (fst (snd (webhook_bg_job cfg env transport url tid sess))) = lock sess
   \<and> webhook_queue_len (fst (snd (webhook_bg_job cfg env transport url tid sess))) = webhook_queue_len sess"
proof -
  obtain s1 t1 where r: "rechrome_step cfg env sess = (s1, t1)" by (cases "rechrome_step cfg env sess")
  obtain o2 s2 t2 where e: "ensure_fb (ensure_launch_res env) s1 = (o2, s2, t2)"
    by (cases "ensure_fb (ensure_launch_res env) s1")
  obtain s3 t3 where k: "sink_trigger cfg s2 = (s3, t3)" by (cases "sink_trigger cfg s2")
  have c1: "closed_flag s1 = closed_flag sess" "lock s1 = lock sess"
    "webhook_queue_len s1 = webhook_queue_len sess"
    using rechrome_step_keeps [of cfg env sess] r by simp_all
  have c2: "closed_flag s2 = closed_flag s1" "lock s2 = lock s1"
    "webhook_queue_len s2 = webhook_queue_len s1"
    using ensure_fb_keeps [of "ensure_launch_res env" s1] e by simp_all
  have c3: "closed_flag s3 = closed_flag s2" "lock s3 = lock s2"
    "webhook_queue_len s3 = webhook_queue_len s2"
    using sink_trigger_keeps [of cfg s2] k by simp_all
  show ?thesis
    by (simp add: webhook_bg_job_def r e k c1 c2 c3 split: outcome.split bool.split)
qed

lemma schedule_gives_back:
  assumes live: "map_of (sessions m1) uname = Some s" "\<not> closed_flag s" "\<not> lock s"
  shows "\<exists>m2 tr s2. schedule cfg env transport nc na nr uname url tid m1 = Some (m2, tr)
           \<and> map_of (sessions m2) uname = Some s2
           \<and> \<not> closed_flag s2 \<and> \<not> lock s2 \<and> webhook_queue_len s2 = webhook_queue_len s - 1"
proof -
  have g: "get_or_create nc uname m1 = (s, m1)"
    using get_or_create_again [OF live(1) live(2)] .
  define sa where "sa = touch na (s\<lparr>lock := True\<rparr>)"
  define ma where "ma = set_session uname sa m1"
  have en: "enter_user nc na uname m1 = Some (sa, ma)"
    using live(3) by (simp add: enter_user_def g Let_def sa_def ma_def)
  have fa: "closed_flag sa = closed_flag s" "webhook_queue_len sa = webhook_queue_len s"
    by (simp_all add: sa_def touch_def)
  obtain u sb tr where j: "webhook_bg_job cfg env transport url tid sa = (u, sb, tr)"
    by (cases "webhook_bg_job cfg env transport url tid sa")
  have fb: "closed_flag sb = closed_flag s" "webhook_queue_len sb = webhook_queue_len s"
    using webhook_bg_job_keeps [of cfg env transport url tid sa] j fa by simp_all
  define sc where "sc = (touch nr sb)\<lparr>lock := False\<rparr>"
  define mc where "mc = set_session uname sc ma"
  have run: "run_for_user nc na nr uname (webhook_bg_job cfg env transport url tid) m1
      = Some (u, mc, tr)"
    by (simp add: run_for_user_def en j exit_user_def sc_def mc_def)
  have look: "map_of (sessions mc) uname = Some sc"
    by (simp add: mc_def map_of_set_session)
  have fc: "\<not> closed_flag sc" "\<not> lock sc" "webhook_queue_len sc = webhook_queue_len s"
    using fb live(2) by (simp_all add: sc_def touch_def)
  define sd where "sd = sc\<lparr>webhook_queue_len := webhook_queue_len sc - 1\<rparr>"
  have sch: "schedule cfg env transport nc na nr uname url tid m1 = Some (set_session uname sd mc, tr)"
    by (simp add: schedule_def run look sd_def)
  have "map_of (sessions (set_session uname sd mc)) uname = Some sd"
    by (simp add: map_of_set_session)
  moreover have "\<not> closed_flag sd" "\<not> lock sd" "webhook_queue_len sd = webhook_queue_len s - 1"
    using fc by (simp_all add: sd_def)
  ultimately show ?thesis using sch by blast
qed

lemma schedule_waits:
  assumes live: "map_of (sessions m1) uname = Some s" "\<not> closed_flag s" "lock s"
  shows "schedule cfg env transport nc na nr uname url tid m1 = None"
proof -
  have g: "get_or_create nc uname m1 = (s, m1)"
    using get_or_create_again [OF live(1) live(2)] .
  have "enter_user nc na uname m1 = None"
    using live(3) by (simp add: enter_user_def g)
  then show ?thesis by (simp add: schedule_def run_for_user_def)
qed


text \<open>
  C3, as amended. An accepted submission (non-empty user name and URL, profile present) is
  answered with the number of webhook jobs pending on the user's session, plus one, plus
  one more when the lock of the session is held at that moment; the status is
  \<^verbatim>\<open>running\<close> exactly when that position is 1, that is when nothing is pending and the
  lock is free, and \<^verbatim>\<open>queued\<close> otherwise. The pending counter of the session rises by
  one and one task is created for the job. The task (\<^verbatim>\<open>_schedule\<close>) waits while the
  lock is held; when the lock is free it runs the job to its end and gives the count
  back, so that a submission made after it is answered as this one was. Three
  submissions for a user who has no session yet, none of whose jobs has taken the lock,
  are answered 1 (running), 2 and 3 (queued).
\<close>

theorem webhook_queue_position:
  "uname \<noteq> [] \<and> has_profile \<and> webhook_url \<noteq> [] \<longrightarrow>
     scrape_posts_webhook has_profile now uname webhook_url task_id m
       = (WebhookAccepted
            (if webhook_queue_len (fst (get_or_create now uname m)) = 0
                \<and> \<not> lock (fst (get_or_create now uname m))
             then ''running'' else ''queued'')
            (int (webhook_queue_len (fst (get_or_create now uname m)))
             + (if lock (fst (get_or_create now uname m)) then 2 else 1)),
          set_session uname
            ((fst (get_or_create now uname m))
               \<lparr>webhook_queue_len := webhook_queue_len (fst (get_or_create now uname m)) + 1\<rparr>)
            (snd (get_or_create now uname m)),
          [CreateWebhookTask task_id])
     \<and> (lock (fst (get_or_create now uname m)) \<longrightarrow>
          schedule cfg env transport nc na nr uname webhook_url task_id
            (fst (snd (scrape_posts_webhook has_profile now uname webhook_url task_id m))) = None)
     \<and> (\<not> lock (fst (get_or_create now uname m)) \<longrightarrow>
          (case schedule cfg env transport nc na nr uname webhook_url task_id
                  (fst (snd (scrape_posts_webhook has_profile now uname webhook_url task_id m))) of
             None \<Rightarrow> False
           | Some (m', tr) \<Rightarrow>
               fst (scrape_posts_webhook has_profile now' uname webhook_url task_id' m')
                 = WebhookAccepted
                     (if webhook_queue_len (fst (get_or_create now uname m)) = 0
                      then ''running'' else ''queued'')
                     (int (webhook_queue_len (fst (get_or_create now uname m))) + 1)))
     \<and> (map_of (sessions m) uname = None \<longrightarrow>
        (case scrape_posts_webhook has_profile now uname webhook_url task_id m of
           (r1, m1, tr1) \<Rightarrow>
             (case scrape_posts_webhook has_profile now2 uname webhook_url task_id2 m1 of
                (r2, m2, tr2) \<Rightarrow>
                  (case scrape_posts_webhook has_profile now3 uname webhook_url task_id3 m2 of
                     (r3, m3, tr3) \<Rightarrow>
                       [r1, r2, r3] = [WebhookAccepted ''running'' 1, WebhookAccepted ''queued'' 2,
                                       WebhookAccepted ''queued'' 3]))))"
proof (intro impI, elim conjE)
  assume a: "uname \<noteq> []" "has_profile" "webhook_url \<noteq> []"
  note acc = scrape_posts_webhook_accepted [OF a]
  let ?S = "fst (get_or_create now uname m)"
  let ?M = "snd (get_or_create now uname m)"
  let ?S1 = "?S\<lparr>webhook_queue_len := webhook_queue_len ?S + 1\<rparr>"
  let ?M1 = "set_session uname ?S1 ?M"
  have p1: "scrape_posts_webhook has_profile now uname webhook_url task_id m
       = (WebhookAccepted
            (if webhook_queue_len ?S = 0 \<and> \<not> lock ?S then ''running'' else ''queued'')
            (int (webhook_queue_len ?S) + (if lock ?S then 2 else 1)),
          ?M1, [CreateWebhookTask task_id])"
    by (simp add: acc Let_def)
  have m1: "fst (snd (scrape_posts_webhook has_profile now uname webhook_url task_id m)) = ?M1"
    by (simp add: p1)
  have live: "map_of (sessions ?M1) uname = Some ?S1" "\<not> closed_flag ?S1" "lock ?S1 = lock ?S"
    using get_or_create_live [of now uname m] by (simp_all add: map_of_set_session)
  have p2: "lock ?S \<longrightarrow>
          schedule cfg env transport nc na nr uname webhook_url task_id
            (fst (snd (scrape_posts_webhook has_profile now uname webhook_url task_id m))) = None"
  proof
    assume l: "lock ?S"
    have "lock ?S1" using l live(3) by simp
    from schedule_waits [OF live(1) live(2) this]
    show "schedule cfg env transport nc na nr uname webhook_url task_id
            (fst (snd (scrape_posts_webhook has_profile now uname webhook_url task_id m))) = None"
      unfolding m1 .
  qed
  have p3: "\<not> lock ?S \<longrightarrow>
          (case schedule cfg env transport nc na nr uname webhook_url task_id
                  (fst (snd (scrape_posts_webhook has_profile now uname webhook_url task_id m))) of
             None \<Rightarrow> False
           | Some (m', tr) \<Rightarrow>
               fst (scrape_posts_webhook has_profile now' uname webhook_url task_id' m')
                 = WebhookAccepted
                     (if webhook_queue_len ?S = 0 then ''running'' else ''queued'')
                     (int (webhook_queue_len ?S) + 1))"
  proof
    assume l: "\<not> lock ?S"
    have l1: "\<not> lock ?S1" using l live(3) by simp
    obtain m2 tr s2 where
      sch: "schedule cfg env transport nc na nr uname webhook_url task_id ?M1 = Some (m2, tr)"
      and look: "map_of (sessions m2) uname = Some s2"
      and f2: "\<not> closed_flag s2" "\<not> lock s2" "webhook_queue_len s2 = webhook_queue_len ?S1 - 1"
      using schedule_gives_back [OF live(1) live(2) l1, of cfg env transport nc na nr webhook_url task_id]
      by blast
    have g2: "get_or_create now' uname m2 = (s2, m2)"
      using get_or_create_again [OF look f2(1)] .
    have q: "webhook_queue_len s2 = webhook_queue_len ?S" using f2(3) by simp
    have "fst (scrape_posts_webhook has_profile now' uname webhook_url task_id' m2)
        = WebhookAccepted (if webhook_queue_len ?S = 0 then ''running'' else ''queued'')
            (int (webhook_queue_len ?S) + 1)"
      using f2(2) by (simp add: scrape_posts_webhook_accepted [OF a] g2 Let_def q)
    then show "(case schedule cfg env transport nc na nr uname webhook_url task_id
                  (fst (snd (scrape_posts_webhook has_profile now uname webhook_url task_id m))) of
             None \<Rightarrow> False
           | Some (m', tr) \<Rightarrow>
               fst (scrape_posts_webhook has_profile now' uname webhook_url task_id' m')
                 = WebhookAccepted
                     (if webhook_queue_len ?S = 0 then ''running'' else ''queued'')
                     (int (webhook_queue_len ?S) + 1))"
      unfolding m1 sch by simp
  qed
  have p4: "map_of (sessions m) uname = None \<longrightarrow>
        (case scrape_posts_webhook has_profile now uname webhook_url task_id m of
           (r1, m1, tr1) \<Rightarrow>
             (case scrape_posts_webhook has_profile now2 uname webhook_url task_id2 m1 of
                (r2, m2, tr2) \<Rightarrow>
                  (case scrape_posts_webhook has_profile now3 uname webhook_url task_id3 m2 of
                     (r3, m3, tr3) \<Rightarrow>
                       [r1, r2, r3] = [WebhookAccepted ''running'' 1, WebhookAccepted ''queued'' 2,
                                       WebhookAccepted ''queued'' 3])))"
  proof
    assume none: "map_of (sessions m) uname = None"
    define s0 where "s0 = UserSession_init uname now"
    have f0: "\<not> lock s0" "\<not> closed_flag s0" "webhook_queue_len s0 = 0"
      by (simp_all add: s0_def UserSession_init_def)
    have g0: "get_or_create now uname m = (s0, set_session uname s0 m)"
      using none by (simp add: get_or_create_def s0_def)
    define s1 where "s1 = s0\<lparr>webhook_queue_len := 1\<rparr>"
    define m1 where "m1 = set_session uname s1 (set_session uname s0 m)"
    have f1: "\<not> lock s1" "\<not> closed_flag s1" "webhook_queue_len s1 = 1"
      using f0 by (simp_all add: s1_def)
    have r1: "scrape_posts_webhook has_profile now uname webhook_url task_id m
        = (WebhookAccepted ''running'' 1, m1, [CreateWebhookTask task_id])"
      using f0 by (simp add: acc g0 Let_def s1_def m1_def)
    have g1: "get_or_create now2 uname m1 = (s1, m1)"
      by (rule get_or_create_again) (simp_all add: m1_def map_of_set_session f1)
    define s2 where "s2 = s1\<lparr>webhook_queue_len := 2\<rparr>"
    define m2 where "m2 = set_session uname s2 m1"
    have f2: "\<not> lock s2" "\<not> closed_flag s2" "webhook_queue_len s2 = 2"
      using f1 by (simp_all add: s2_def)
    have r2: "scrape_posts_webhook has_profile now2 uname webhook_url task_id2 m1
        = (WebhookAccepted ''queued'' 2, m2, [CreateWebhookTask task_id2])"
      using f1 by (simp add: scrape_posts_webhook_accepted [OF a] g1 Let_def s2_def m2_def numeral_2_eq_2)
    have g2: "get_or_create now3 uname m2 = (s2, m2)"
      by (rule get_or_create_again) (simp_all add: m2_def map_of_set_session f2)
    have r3: "fst (scrape_posts_webhook has_profile now3 uname webhook_url task_id3 m2)
        = WebhookAccepted ''queued'' 3"
      using f2 by (simp add: scrape_posts_webhook_accepted [OF a] g2 Let_def)
    show "(case scrape_posts_webhook has_profile now uname webhook_url task_id m of
           (r1, m1, tr1) \<Rightarrow>
             (case scrape_posts_webhook has_profile now2 uname webhook_url task_id2 m1 of
                (r2, m2, tr2) \<Rightarrow>
                  (case scrape_posts_webhook has_profile now3 uname webhook_url task_id3 m2 of
                     (r3, m3, tr3) \<Rightarrow>
                       [r1, r2, r3] = [WebhookAccepted ''running'' 1, WebhookAccepted ''queued'' 2,
                                       WebhookAccepted ''queued'' 3])))"
      using r3 by (cases "scrape_posts_webhook has_profile now3 uname webhook_url task_id3 m2")
        (simp add: r1 r2)
  qed
  show "scrape_posts_webhook has_profile now uname webhook_url task_id m
       = (WebhookAccepted
            (if webhook_queue_len (fst (get_or_create now uname m)) = 0
                \<and> \<not> lock (fst (get_or_create now uname m))
             then ''running'' else ''queued'')
            (int (webhook_queue_len (fst (get_or_create now uname m)))
             + (if lock (fst (get_or_create now uname m)) then 2 else 1)),
          set_session uname
            ((fst (get_or_create now uname m))
               \<lparr>webhook_queue_len := webhook_queue_len (fst (get_or_create now uname m)) + 1\<rparr>)
            (snd (get_or_create now uname m)),
          [CreateWebhookTask task_id])
     \<and> (lock (fst (get_or_create now uname m)) \<longrightarrow>
          schedule cfg env transport nc na nr uname webhook_url task_id
            (fst (snd (scrape_posts_webhook has_profile now uname webhook_url task_id m))) = None)
     \<and> (\<not> lock (fst (get_or_create now uname m)) \<longrightarrow>
          (case schedule cfg env transport nc na nr uname webhook_url task_id
                  (fst (snd (scrape_posts_webhook has_profile now uname webhook_url task_id m))) of
             None \<Rightarrow> False
           | Some (m', tr) \<Rightarrow>
               fst (scrape_posts_webhook has_profile now' uname webhook_url task_id' m')
                 = WebhookAccepted
                     (if webhook_queue_len (fst (get_or_create now uname m)) = 0
                      then ''running'' else ''queued'')
                     (int (webhook_queue_len (fst (get_or_create now uname m))) + 1)))
     \<and> (map_of (sessions m) uname = None \<longrightarrow>
        (case scrape_posts_webhook has_profile now uname webhook_url task_id m of
           (r1, m1, tr1) \<Rightarrow>
             (case scrape_posts_webhook has_profile now2 uname webhook_url task_id2 m1 of
                (r2, m2, tr2) \<Rightarrow>
                  (case scrape_posts_webhook has_profile now3 uname webhook_url task_id3 m2 of
                     (r3, m3, tr3) \<Rightarrow>
                       [r1, r2, r3] = [WebhookAccepted ''running'' 1, WebhookAccepted ''queued'' 2,
                                       WebhookAccepted ''queued'' 3]))))"
    using p1 p2 p3 p4 by blast
qed

theorem webhook_queue_position_witness:
  "''bob'' \<noteq> [] \<and> ''http://cb'' \<noteq> []
   \<and> map_of (sessions (SessionManager_init 1800)) ''bob'' = None
   \<and> \<not> lock (fst (get_or_create 1 ''bob'' (SessionManager_init 1800)))
   \<and> (case scrape_posts_webhook True 1 ''bob'' ''http://cb'' ''t1'' (SessionManager_init 1800) of
        (r1, m1, tr1) \<Rightarrow>
          (case scrape_posts_webhook True 2 ''bob'' ''http://cb'' ''t2'' m1 of
             (r2, m2, tr2) \<Rightarrow>
               (case scrape_posts_webhook True 3 ''bob'' ''http://cb'' ''t3'' m2 of
                  (r3, m3, tr3) \<Rightarrow>
                    [r1, r2, r3] = [WebhookAccepted ''running'' 1, WebhookAccepted ''queued'' 2,
                                    WebhookAccepted ''queued'' 3])))
   \<and> (case schedule
             \<lparr>RECHROME_POLICY = ''never'', RECHROME_EVERY_N = 0, SINK_HITS_BEFORE_TRIGGER = 8,
              SINK_COOLDOWN_SEC = 1800, SINK_IDLE_SEC = 1500\<rparr>
             \<lparr>fb_close_res = Returns (), restart_launch_res = Returns True,
              ensure_launch_res = Returns True, is_logged_in_res = Returns True,
              run_task_res = Returns [], save_json_res = Returns ()\<rparr>
             (Returns 200) 2 2 3 ''bob'' ''http://cb'' ''t1''
             (fst (snd (scrape_posts_webhook True 1 ''bob'' ''http://cb'' ''t1''
                          (SessionManager_init 1800)))) of
        None \<Rightarrow> False
      | Some (m', tr) \<Rightarrow>
          fst (scrape_posts_webhook True 4 ''bob'' ''http://cb'' ''t4'' m')
            = WebhookAccepted ''running'' 1)"
proof -
  have l: "\<not> lock (fst (get_or_create 1 ''bob'' (SessionManager_init 1800)))"
    "webhook_queue_len (fst (get_or_create 1 ''bob'' (SessionManager_init 1800))) = 0"
    "map_of (sessions (SessionManager_init 1800)) ''bob'' = None"
    by (simp_all add: get_or_create_def SessionManager_init_def UserSession_init_def)
  note t = webhook_queue_position [where uname = "''bob''" and has_profile = True
      and webhook_url = "''http://cb''" and now = 1 and m = "SessionManager_init 1800"
      and task_id = "''t1''" and ?now2.0 = 2 and ?task_id2.0 = "''t2''" and ?now3.0 = 3
      and ?task_id3.0 = "''t3''" and now' = 4 and task_id' = "''t4''"
      and cfg = "\<lparr>RECHROME_POLICY = ''never'', RECHROME_EVERY_N = 0, SINK_HITS_BEFORE_TRIGGER = 8,
              SINK_COOLDOWN_SEC = 1800, SINK_IDLE_SEC = 1500\<rparr>"
      and env = "\<lparr>fb_close_res = Returns (), restart_launch_res = Returns True,
              ensure_launch_res = Returns True, is_logged_in_res = Returns True,
              run_task_res = Returns [], save_json_res = Returns ()\<rparr>"
      and transport = "Returns 200" and nc = 2 and na = 2 and nr = 3]
  have hyp: "''bob'' \<noteq> [] \<and> True \<and> ''http://cb'' \<noteq> []" by simp
  note c = t [THEN mp, OF hyp]
  note c3 = c [THEN conjunct2, THEN conjunct2, THEN conjunct1, THEN mp, OF l(1)]
  note c4 = c [THEN conjunct2, THEN conjunct2, THEN conjunct2, THEN mp, OF l(3)]
  have c3': "(case schedule
             \<lparr>RECHROME_POLICY = ''never'', RECHROME_EVERY_N = 0, SINK_HITS_BEFORE_TRIGGER = 8,
              SINK_COOLDOWN_SEC = 1800, SINK_IDLE_SEC = 1500\<rparr>
             \<lparr>fb_close_res = Returns (), restart_launch_res = Returns True,
              ensure_launch_res = Returns True, is_logged_in_res = Returns True,
              run_task_res = Returns [], save_json_res = Returns ()\<rparr>
             (Returns 200) 2 2 3 ''bob'' ''http://cb'' ''t1''
             (fst (snd (scrape_posts_webhook True 1 ''bob'' ''http://cb'' ''t1''
                          (SessionManager_init 1800)))) of
        None \<Rightarrow> False
      | Some (m', tr) \<Rightarrow>
          fst (scrape_posts_webhook True 4 ''bob'' ''http://cb'' ''t4'' m')
            = WebhookAccepted ''running'' 1)"
    using c3 [unfolded l(2)] by (simp split: option.splits prod.splits)
  show ?thesis
    using c3' c4 l(1) l(3) by simp
qed

text \<open>
  C3, as stated, fails when the lock is held at the submission, because the position
  adds one for the lock holder to the pending counter. With a foreground job running and
  no webhook job pending, the position is 2 (queued), not 1 (running): the job does have
  to wait, and the comment in the source counts the running job. And when the first of
  three webhook jobs has taken the lock before the second is submitted, which is what
  happens when the submissions are separate requests, the positions are 1, 3, 4: the
  running webhook job is still in the pending counter (it is taken out when the job has
  ended) and is counted again as the lock holder.
\<close>

theorem webhook_position_counts_gate_holder:
  "(case enter_user 1 1 ''bob'' (SessionManager_init 1800) of
      None \<Rightarrow> False
    | Some (s, m1) \<Rightarrow>
        webhook_queue_len s = 0
        \<and> fst (scrape_posts_webhook True 2 ''bob'' ''http://cb'' ''t1'' m1)
            = WebhookAccepted ''queued'' 2)
   \<and> (case scrape_posts_webhook True 1 ''bob'' ''http://cb'' ''t1'' (SessionManager_init 1800) of
        (r1, m1, tr1) \<Rightarrow>
          (case enter_user 2 2 ''bob'' m1 of
             None \<Rightarrow> False
           | Some (s, m2) \<Rightarrow>
               (case scrape_posts_webhook True 3 ''bob'' ''http://cb'' ''t2'' m2 of
                  (r2, m3, tr2) \<Rightarrow>
                    (case scrape_posts_webhook True 4 ''bob'' ''http://cb'' ''t3'' m3 of
                       (r3, m4, tr3) \<Rightarrow>
                         webhook_queue_len s = 1
                         \<and> [r1, r2, r3] = [WebhookAccepted ''running'' 1,
                                           WebhookAccepted ''queued'' 3,
                                           WebhookAccepted ''queued'' 4]))))"
  by (simp add: scrape_posts_webhook_def enter_user_def get_or_create_def SessionManager_init_def
      set_session_def UserSession_init_def touch_def Let_def)

section \<open>Properties of the webhook job\<close>











section \<open>Closing a session\<close>

text \<open>
  C10. \<^verbatim>\<open>UserSession.close\<close> never raises: whatever closing the browser does
  (return or raise an exception), the call returns, and a session that was open ends
  with no resource and marked closed; on a session already closed the call returns at
  once and changes nothing and logs nothing. Both files' sessions behave so.
\<close>

theorem close_never_raises:
  "fst (close fb_close sess) = Returns ()
   \<and> fb (fst (snd (close fb_close sess))) = (if closed_flag sess then fb sess else None)
   \<and> closed_flag (fst (snd (close fb_close sess)))
   \<and> close fb_close (sess\<lparr>closed_flag := True\<rparr>) = (Returns (), sess\<lparr>closed_flag := True\<rparr>, [])
   \<and> fst (tt_close driver_close tsess) = Returns ()
   \<and> scraper (fst (snd (tt_close driver_close tsess))) = (if tt_closed tsess then scraper tsess else None)
   \<and> tt_closed (fst (snd (tt_close driver_close tsess)))
   \<and> tt_close driver_close (tsess\<lparr>tt_closed := True\<rparr>) = (Returns (), tsess\<lparr>tt_closed := True\<rparr>, [])"
  by (simp add: close_def tt_close_def cleanup_def Let_def split: option.split outcome.split)

end
